theory Spec2Isabelle
  imports Complex_Main "HOL-Library.Sublist" "HOL-Library.AList"
begin

section \<open>Values and errors of the host language\<close>

text \<open>
  The program is the main process of an Electron application (JavaScript).  A thrown
  exception, a rejected promise and an \<open>'error'\<close> event are values of \<open>js_error\<close>;
  every function that can throw returns \<open>js_error + 'a\<close>, \<open>Inl\<close> carrying the
  exception.  The handlers report \<open>error.message\<close>, which is \<open>message\<close> here.
\<close>

datatype js_error =
    NetworkError string  \<comment> \<open>the \<open>'error'\<close> event of \<open>https.get\<close>\<close>
  | SyntaxError string   \<comment> \<open>thrown by \<open>JSON.parse\<close>\<close>
  | TypeError string     \<comment> \<open>property of \<open>undefined\<close>/\<open>null\<close>, call of a non-function\<close>
  | SystemError string   \<comment> \<open>thrown by \<open>fs\<close> (ENOENT, EISDIR, ...) and by a child process\<close>
  | RangeError string    \<comment> \<open>call stack exhausted\<close>
  | Error string         \<comment> \<open>\<open>new Error(msg)\<close> of the program itself\<close>

fun message :: "js_error \<Rightarrow> string" where
  "message (NetworkError m) = m"
| "message (SyntaxError m) = m"
| "message (TypeError m) = m"
| "message (SystemError m) = m"
| "message (RangeError m) = m"
| "message (Error m) = m"

text \<open>
  What \<open>JSON.parse\<close> returns.  An object is the list of its own properties; \<open>undefined\<close>
  (the value of a missing property) is \<open>None\<close> of \<open>json option\<close>.
\<close>

datatype json =
    JNull
  | JBool bool
  | JNum rat
  | JStr string
  | JArr "json list"
  | JObj "(string \<times> json) list"

text \<open>
  Property access \<open>v.k\<close> for the property names the program uses (\<open>applist\<close>, \<open>apps\<close>,
  \<open>length\<close>, \<open>appid\<close>, \<open>name\<close>): it throws on \<open>undefined\<close> and \<open>null\<close>, reads an own
  property of an object, knows \<open>length\<close> of arrays and strings, and is \<open>undefined\<close>
  everywhere else.
\<close>

fun get_prop :: "json option \<Rightarrow> string \<Rightarrow> js_error + json option" where
  "get_prop None k = Inl (TypeError (''Cannot read properties of undefined (reading '' @ k @ '')''))"
| "get_prop (Some JNull) k = Inl (TypeError (''Cannot read properties of null (reading '' @ k @ '')''))"
| "get_prop (Some (JObj ps)) k = Inr (map_of ps k)"
| "get_prop (Some (JArr xs)) k =
     Inr (if k = ''length'' then Some (JNum (of_nat (length xs))) else None)"
| "get_prop (Some (JStr s)) k =
     Inr (if k = ''length'' then Some (JNum (of_nat (length s))) else None)"
| "get_prop (Some (JBool b)) k = Inr None"
| "get_prop (Some (JNum n)) k = Inr None"

section \<open>Catalog cache manager\<close>

text \<open>
  The state the catalog lookup reads and writes: the cache file \<open>APPLIST_CACHE_FILE\<close>
  (absent, or a regular file with its last-modified time in milliseconds and its text),
  the clock that \<open>Date.now()\<close> reads, and the number of GET requests sent to
  \<open>STEAM_APPLIST_URL\<close> so far.  The file system is taken to work: \<open>ensureCacheDir\<close>
  leaves the cache directory in place, and reading or writing the cache file fails only
  when the file is absent.
\<close>

record cache_file =
  mtime :: int
  content :: string

record world =
  cache :: "cache_file option"
  clock :: int
  requests :: nat

text \<open>
  What lies outside the program: \<open>JSON.parse\<close> and \<open>JSON.stringify\<close>, the answer of the
  catalog endpoint (a network error, or the body of the response, whatever its status:
  \<open>fetchSteamAppList\<close> never looks at the status code), and the time the request takes.
\<close>

record env =
  JSON_parse :: "string \<Rightarrow> js_error + json"
  JSON_stringify :: "json \<Rightarrow> string"
  response :: "js_error + string"
  latency :: nat

definition CACHE_DURATION :: int where
  "CACHE_DURATION = 7 * 24 * 60 * 60 * 1000"

definition isCacheValid :: "world \<Rightarrow> bool" where
  "isCacheValid w =
     (case cache w of
        None \<Rightarrow> False
      | Some f \<Rightarrow> clock w - mtime f < CACHE_DURATION)"

text \<open>\<open>data.applist.apps.length\<close>, evaluated for the log line; it may throw.\<close>

definition apps_length :: "json \<Rightarrow> js_error + json option" where
  "apps_length data =
     (case get_prop (Some data) ''applist'' of
        Inl err \<Rightarrow> Inl err
      | Inr a \<Rightarrow>
          (case get_prop a ''apps'' of
             Inl err \<Rightarrow> Inl err
           | Inr b \<Rightarrow> get_prop b ''length''))"

definition fetchSteamAppList :: "env \<Rightarrow> world \<Rightarrow> (js_error + json) \<times> world" where
  "fetchSteamAppList e w =
     (let w1 = w\<lparr>requests := Suc (requests w), clock := clock w + int (latency e)\<rparr> in
      case response e of
        Inl err \<Rightarrow> (Inl err, w1)
      | Inr body \<Rightarrow>
          (case JSON_parse e body of
             Inl err \<Rightarrow> (Inl err, w1)
           | Inr data \<Rightarrow>
               (case apps_length data of
                  Inl err \<Rightarrow> (Inl err, w1)
                | Inr n \<Rightarrow> (Inr data, w1))))"

text \<open>\<open>JSON.parse(fs.readFileSync(APPLIST_CACHE_FILE, 'utf8'))\<close>.\<close>

definition read_cache :: "env \<Rightarrow> world \<Rightarrow> js_error + json" where
  "read_cache e w =
     (case cache w of
        None \<Rightarrow> Inl (SystemError ''ENOENT: no such file or directory'')
      | Some f \<Rightarrow> JSON_parse e (content f))"

text \<open>The \<open>try\<close> block of \<open>getSteamAppList\<close>.\<close>

definition getSteamAppList_try :: "env \<Rightarrow> world \<Rightarrow> (js_error + json) \<times> world" where
  "getSteamAppList_try e w =
     (if isCacheValid w then
        (case read_cache e w of
           Inl err \<Rightarrow> (Inl err, w)
         | Inr data \<Rightarrow>
             (case apps_length data of
                Inl err \<Rightarrow> (Inl err, w)
              | Inr n \<Rightarrow> (Inr data, w)))
      else
        (case fetchSteamAppList e w of
           (Inl err, w1) \<Rightarrow> (Inl err, w1)
         | (Inr data, w1) \<Rightarrow>
             (Inr data,
              w1\<lparr>cache := Some \<lparr>mtime = clock w1, content = JSON_stringify e data\<rparr>\<rparr>)))"

text \<open>The \<open>catch\<close> block: whatever was thrown, an existing cache file is read again.\<close>

definition getSteamAppList_catch :: "env \<Rightarrow> js_error \<Rightarrow> world \<Rightarrow> (js_error + json) \<times> world" where
  "getSteamAppList_catch e err w =
     (if cache w \<noteq> None then (read_cache e w, w) else (Inl err, w))"

definition getSteamAppList :: "env \<Rightarrow> world \<Rightarrow> (js_error + json) \<times> world" where
  "getSteamAppList e w =
     (case getSteamAppList_try e w of
        (Inr data, w1) \<Rightarrow> (Inr data, w1)
      | (Inl err, w1) \<Rightarrow> getSteamAppList_catch e err w1)"

text \<open>
  The handler \<open>get-steam-applist\<close>.  \<open>data.applist.apps.forEach\<close> throws unless
  \<open>data.applist.apps\<close> is an array; the callback runs \<open>appMap[app.appid] = app.name\<close>
  for every element, in order.  \<open>apps\<close> of the result is the list of these assignments
  (key and value as read, before the key becomes a property name), \<open>cached\<close> is
  \<open>isCacheValid()\<close> evaluated when the result is built.
\<close>

fun app_assignment :: "json \<Rightarrow> js_error + (json option \<times> json option)" where
  "app_assignment app =
     (case get_prop (Some app) ''appid'' of
        Inl err \<Rightarrow> Inl err
      | Inr k \<Rightarrow>
          (case get_prop (Some app) ''name'' of
             Inl err \<Rightarrow> Inl err
           | Inr v \<Rightarrow> Inr (k, v)))"

fun forEach_app :: "json list \<Rightarrow> js_error + (json option \<times> json option) list" where
  "forEach_app [] = Inr []"
| "forEach_app (app # rest) =
     (case app_assignment app of
        Inl err \<Rightarrow> Inl err
      | Inr kv \<Rightarrow>
          (case forEach_app rest of
             Inl err \<Rightarrow> Inl err
           | Inr kvs \<Rightarrow> Inr (kv # kvs)))"

definition build_app_map :: "json \<Rightarrow> js_error + (json option \<times> json option) list" where
  "build_app_map data =
     (case get_prop (Some data) ''applist'' of
        Inl err \<Rightarrow> Inl err
      | Inr a \<Rightarrow>
          (case get_prop a ''apps'' of
             Inl err \<Rightarrow> Inl err
           | Inr None \<Rightarrow> Inl (TypeError ''Cannot read properties of undefined (reading forEach)'')
           | Inr (Some JNull) \<Rightarrow> Inl (TypeError ''Cannot read properties of null (reading forEach)'')
           | Inr (Some (JArr xs)) \<Rightarrow> forEach_app xs
           | Inr (Some other) \<Rightarrow> Inl (TypeError ''data.applist.apps.forEach is not a function'')))"

datatype applist_result =
    AppList (apps: "(json option \<times> json option) list") (totalApps: nat) (cached: bool)
  | AppListError (error: string)

definition get_steam_applist :: "env \<Rightarrow> world \<Rightarrow> applist_result \<times> world" where
  "get_steam_applist e w =
     (case getSteamAppList e w of
        (Inl err, w1) \<Rightarrow> (AppListError (message err), w1)
      | (Inr data, w1) \<Rightarrow>
          (case build_app_map data of
             Inl err \<Rightarrow> (AppListError (message err), w1)
           | Inr m \<Rightarrow> (AppList m (length m) (isCacheValid w1), w1)))"

text \<open>A small catalog, a parser that knows two texts, and worlds to run the lookup on.\<close>

definition catalog_of :: "(int \<times> string) list \<Rightarrow> json" where
  "catalog_of xs =
     JObj [(''applist'',
       JObj [(''apps'',
         JArr (map (\<lambda>(i, n). JObj [(''appid'', JNum (of_int i)), (''name'', JStr n)]) xs))])]"

definition toy_parse :: "string \<Rightarrow> js_error + json" where
  "toy_parse s =
     (if s = ''old'' then Inr (catalog_of [(440, ''Team Fortress 2'')])
      else if s = ''new'' then Inr (catalog_of [(440, ''Team Fortress 2''), (570, ''Dota 2'')])
      else Inl (SyntaxError ''Unexpected token''))"

definition toy_stringify :: "json \<Rightarrow> string" where
  "toy_stringify j = (if j = catalog_of [(440, ''Team Fortress 2'')] then ''old'' else ''new'')"

definition online :: env where
  "online = \<lparr>JSON_parse = toy_parse, JSON_stringify = toy_stringify,
     response = Inr ''new'', latency = 250\<rparr>"

definition offline :: env where
  "offline = \<lparr>JSON_parse = toy_parse, JSON_stringify = toy_stringify,
     response = Inl (NetworkError ''getaddrinfo ENOTFOUND''), latency = 250\<rparr>"

definition world_with :: "cache_file option \<Rightarrow> world" where
  "world_with c = \<lparr>cache = c, clock = 1000000000000, requests = 0\<rparr>"


section \<open>Text payloads: the handler \<open>fetch-remote-file\<close>\<close>

text \<open>
  The value of a header is a string of Latin-1 characters.  \<open>toLowerCase\<close> maps
  \<open>A\<close>--\<open>Z\<close> and the upper-case letters of the Latin-1 supplement; \<open>trim\<close> removes
  the white space and line terminators of the language that Latin-1 has;
  \<open>s.includes(t)\<close> is true when \<open>t\<close> occurs in \<open>s\<close>.
\<close>

definition js_lower_char :: "char \<Rightarrow> char" where
  "js_lower_char c =
     (let n = of_char c :: nat in
      if (65 \<le> n \<and> n \<le> 90) \<or> (192 \<le> n \<and> n \<le> 222 \<and> n \<noteq> 215)
      then char_of (n + 32) else c)"

definition js_toLowerCase :: "string \<Rightarrow> string" where
  "js_toLowerCase s = map js_lower_char s"

definition js_whitespace :: "char \<Rightarrow> bool" where
  "js_whitespace c = (of_char c \<in> {9, 10, 11, 12, 13, 32, 160 :: nat})"

definition js_trim :: "string \<Rightarrow> string" where
  "js_trim s = rev (dropWhile js_whitespace (rev (dropWhile js_whitespace s)))"

fun js_includes :: "string \<Rightarrow> string \<Rightarrow> bool" where
  "js_includes [] t = (t = [])"
| "js_includes (c # cs) t = (prefix t (c # cs) \<or> js_includes cs t)"

text \<open>
  \<open>contentType.match(/charset=([^;]+)/i)\<close>: the first position where \<open>charset=\<close>
  (in any case) is followed by at least one character other than \<open>;\<close>; the group is
  the longest run of such characters.
\<close>

definition charset_here :: "string \<Rightarrow> string option" where
  "charset_here s =
     (if js_toLowerCase (take 8 s) = ''charset='' \<and> takeWhile (\<lambda>c. c \<noteq> CHR '';'') (drop 8 s) \<noteq> []
      then Some (takeWhile (\<lambda>c. c \<noteq> CHR '';'') (drop 8 s)) else None)"

fun charset_match :: "string \<Rightarrow> string option" where
  "charset_match [] = None"
| "charset_match (c # cs) =
     (case charset_here (c # cs) of
        Some m \<Rightarrow> Some m
      | None \<Rightarrow> charset_match cs)"


text \<open>
  \<open>iconv.decode\<close> (of iconv-lite), which may throw, and \<open>buffer.toString('utf8')\<close>,
  which does not, are libraries; \<open>'b\<close> is the type of buffers, \<open>'t\<close> of decoded text.
  The reply is a network error, or the \<open>content-type\<close> header (if any) and the body;
  the handler never reads the status code.
\<close>

record ('b, 't) codecs =
  iconv_decode :: "'b \<Rightarrow> string \<Rightarrow> js_error + 't"
  utf8_toString :: "'b \<Rightarrow> 't"

record 'b http_reply =
  content_type :: "string option"
  body :: 'b

definition header_encoding :: "string \<Rightarrow> string" where
  "header_encoding contentType =
     (case charset_match contentType of
        None \<Rightarrow> ''utf8''
      | Some m \<Rightarrow> js_toLowerCase (js_trim m))"

definition choose_encoding :: "string \<Rightarrow> string option \<Rightarrow> string" where
  "choose_encoding url header =
     (let contentType = (case header of None \<Rightarrow> [] | Some h \<Rightarrow> h);
          encoding = header_encoding contentType
      in if js_includes url ''online-fix.me'' \<and> encoding = ''utf8''
         then ''windows-1251'' else encoding)"

definition decode_payload :: "('b, 't) codecs \<Rightarrow> 'b \<Rightarrow> string \<Rightarrow> 't" where
  "decode_payload lib buffer encoding =
     (case iconv_decode lib buffer encoding of
        Inr data \<Rightarrow> data
      | Inl e \<Rightarrow> utf8_toString lib buffer)"

definition fetch_remote_file ::
  "('b, 't) codecs \<Rightarrow> string \<Rightarrow> js_error + 'b http_reply \<Rightarrow> js_error + 't" where
  "fetch_remote_file lib url reply =
     (case reply of
        Inl err \<Rightarrow> Inl err
      | Inr res \<Rightarrow> Inr (decode_payload lib (body res) (choose_encoding url (content_type res))))"


definition toy_codecs :: "(string, string) codecs" where
  "toy_codecs =
     \<lparr>iconv_decode = (\<lambda>b enc.
        if enc = ''utf8'' \<or> enc = ''utf-8'' then Inr b
        else if enc = ''windows-1251'' then Inr (''[cp1251]'' @ b)
        else Inl (Error (''Encoding not recognized: '' @ enc))),
      utf8_toString = (\<lambda>b. b)\<rparr>"

section \<open>Paths and the file tree\<close>

text \<open>
  A path is the list of its segments from the root of the file system.
  \<open>path.join(p, s)\<close> splits the string \<open>s\<close> at the separators (slash and backslash) and
  normalises: an empty segment and \<open>.\<close> are dropped, \<open>..\<close> removes the segment before
  it (and stays at the root).
\<close>

type_synonym path = "string list"

definition is_sep :: "char \<Rightarrow> bool" where
  "is_sep c = (c = CHR ''/'' \<or> c = CHR 0x5C)"

fun split_path :: "string \<Rightarrow> string list" where
  "split_path [] = [[]]"
| "split_path (c # cs) =
     (if is_sep c then [] # split_path cs
      else (case split_path cs of
              [] \<Rightarrow> [[c]]
            | seg # segs \<Rightarrow> (c # seg) # segs))"

fun walk :: "path \<Rightarrow> string list \<Rightarrow> path" where
  "walk p [] = p"
| "walk p (s # ss) =
     (if s = [] \<or> s = ''.'' then walk p ss
      else if s = ''..'' then walk (butlast p) ss
      else walk (p @ [s]) ss)"

definition path_join :: "path \<Rightarrow> string \<Rightarrow> path" where
  "path_join p s = walk p (split_path s)"

text \<open>The decimal digits of a number, as a template literal prints it.\<close>

fun dec :: "nat \<Rightarrow> string" where
  "dec n = (if n < 10 then [char_of (48 + n)] else dec (n div 10) @ [char_of (48 + n mod 10)])"

declare dec.simps [simp del]

text \<open>
  The file system is a tree of directories and regular files (no links, no permissions).
  A directory lists its entries in the order \<open>readdirSync\<close> returns them; the entry
  found under a name is the first one with that name.
\<close>

datatype node = File string | Dir "(string \<times> node) list"

fun lookup :: "node \<Rightarrow> path \<Rightarrow> node option" where
  "lookup n [] = Some n"
| "lookup (File b) (c # cs) = None"
| "lookup (Dir es) (c # cs) =
     (case map_of es c of None \<Rightarrow> None | Some sub \<Rightarrow> lookup sub cs)"

text \<open>
  \<open>put\<close> stores a node at a path whose parent is an existing directory (a new entry
  goes to the end of the listing), \<open>mkdirp\<close> creates a directory and its missing
  ancestors, \<open>remove\<close> deletes the entry at a path.  Each is \<open>None\<close> where the
  operating system refuses.
\<close>

fun put :: "node \<Rightarrow> path \<Rightarrow> node \<Rightarrow> node option" where
  "put n [] new = Some new"
| "put (File b) (c # cs) new = None"
| "put (Dir es) [c] new = Some (Dir (AList.update c new es))"
| "put (Dir es) (c # cs) new =
     (case map_of es c of
        None \<Rightarrow> None
      | Some sub \<Rightarrow>
          (case put sub cs new of
             None \<Rightarrow> None
           | Some sub' \<Rightarrow> Some (Dir (AList.update c sub' es))))"

fun mkdirp :: "node \<Rightarrow> path \<Rightarrow> node option" where
  "mkdirp (File b) p = None"
| "mkdirp (Dir es) [] = Some (Dir es)"
| "mkdirp (Dir es) (c # cs) =
     (case mkdirp (case map_of es c of None \<Rightarrow> Dir [] | Some sub \<Rightarrow> sub) cs of
        None \<Rightarrow> None
      | Some sub' \<Rightarrow> Some (Dir (AList.update c sub' es)))"

fun remove :: "node \<Rightarrow> path \<Rightarrow> node option" where
  "remove n [] = None"
| "remove (File b) (c # cs) = None"
| "remove (Dir es) [c] = (if map_of es c = None then None else Some (Dir (AList.delete c es)))"
| "remove (Dir es) (c # cs) =
     (case map_of es c of
        None \<Rightarrow> None
      | Some sub \<Rightarrow>
          (case remove sub cs of
             None \<Rightarrow> None
           | Some sub' \<Rightarrow> Some (Dir (AList.update c sub' es))))"

subsection \<open>The calls of \<open>fs\<close> the program makes\<close>

definition ENOENT :: js_error where
  "ENOENT = SystemError ''ENOENT: no such file or directory''"

definition ENOTDIR :: js_error where
  "ENOTDIR = SystemError ''ENOTDIR: not a directory''"

definition EISDIR :: js_error where
  "EISDIR = SystemError ''EISDIR: illegal operation on a directory''"

definition ENOTEMPTY :: js_error where
  "ENOTEMPTY = SystemError ''ENOTEMPTY: directory not empty''"

definition EEXIST :: js_error where
  "EEXIST = SystemError ''EEXIST: file already exists''"

definition EBUSY :: js_error where
  "EBUSY = SystemError ''EBUSY: resource busy or locked''"

definition existsSync :: "node \<Rightarrow> path \<Rightarrow> bool" where
  "existsSync t p = (lookup t p \<noteq> None)"

text \<open>\<open>fs.statSync(p).isDirectory()\<close> (and \<open>lstatSync\<close>) of a path that exists.\<close>

definition isDirectory :: "node \<Rightarrow> path \<Rightarrow> bool" where
  "isDirectory t p = (case lookup t p of Some (Dir es) \<Rightarrow> True | _ \<Rightarrow> False)"

definition is_dir_node :: "node \<Rightarrow> bool" where
  "is_dir_node n = (case n of Dir es \<Rightarrow> True | File b \<Rightarrow> False)"

text \<open>\<open>readdirSync(p, {withFileTypes: true})\<close>: the names with \<open>entry.isDirectory()\<close>.\<close>

definition readdir_withFileTypes :: "node \<Rightarrow> path \<Rightarrow> js_error + (string \<times> bool) list" where
  "readdir_withFileTypes t p =
     (case lookup t p of
        None \<Rightarrow> Inl ENOENT
      | Some (File b) \<Rightarrow> Inl ENOTDIR
      | Some (Dir es) \<Rightarrow> Inr (map (\<lambda>(name, n). (name, is_dir_node n)) es))"

definition readdirSync :: "node \<Rightarrow> path \<Rightarrow> js_error + string list" where
  "readdirSync t p =
     (case lookup t p of
        None \<Rightarrow> Inl ENOENT
      | Some (File b) \<Rightarrow> Inl ENOTDIR
      | Some (Dir es) \<Rightarrow> Inr (map fst es))"

text \<open>\<open>fs.mkdirSync(p, {recursive: true})\<close>.\<close>

definition mkdirSync :: "node \<Rightarrow> path \<Rightarrow> js_error + node" where
  "mkdirSync t p = (case mkdirp t p of None \<Rightarrow> Inl EEXIST | Some t' \<Rightarrow> Inr t')"

definition copyFileSync :: "node \<Rightarrow> path \<Rightarrow> path \<Rightarrow> js_error + node" where
  "copyFileSync t src dest =
     (case lookup t src of
        None \<Rightarrow> Inl ENOENT
      | Some (Dir es) \<Rightarrow> Inl EISDIR
      | Some (File b) \<Rightarrow>
          (if dest = [] \<or> isDirectory t dest then Inl EISDIR
           else (case put t dest (File b) of None \<Rightarrow> Inl ENOENT | Some t' \<Rightarrow> Inr t')))"

definition unlinkSync :: "node \<Rightarrow> path \<Rightarrow> js_error + node" where
  "unlinkSync t p =
     (case lookup t p of
        None \<Rightarrow> Inl ENOENT
      | Some (Dir es) \<Rightarrow> Inl EISDIR
      | Some (File b) \<Rightarrow> (case remove t p of None \<Rightarrow> Inl ENOENT | Some t' \<Rightarrow> Inr t'))"

definition rmdirSync :: "node \<Rightarrow> path \<Rightarrow> js_error + node" where
  "rmdirSync t p =
     (case lookup t p of
        None \<Rightarrow> Inl ENOENT
      | Some (File b) \<Rightarrow> Inl ENOTDIR
      | Some (Dir es) \<Rightarrow>
          (if es \<noteq> [] then Inl ENOTEMPTY
           else (case remove t p of None \<Rightarrow> Inl EBUSY | Some t' \<Rightarrow> Inr t')))"

subsection \<open>\<open>copyRecursive\<close> and \<open>deleteFolderRecursive\<close>\<close>

text \<open>
  Both closures of the handler recurse on the file system as it is when they reach a
  directory, not on a snapshot, so copying a folder into one of its own subfolders
  never comes to an end by itself.  The first argument is the number of nested calls
  the call stack has room for; exceeding it throws a \<open>RangeError\<close>, as the engine
  does.  The names that \<open>readdirSync\<close> returns are single segments, so
  \<open>path.join(src, entry.name)\<close> appends the name.
\<close>

fun copyRecursive :: "nat \<Rightarrow> node \<Rightarrow> path \<Rightarrow> path \<Rightarrow> js_error + node"
  and copy_entries :: "nat \<Rightarrow> node \<Rightarrow> path \<Rightarrow> path \<Rightarrow> (string \<times> bool) list \<Rightarrow> js_error + node"
where
  "copyRecursive 0 t src dest = Inl (RangeError ''Maximum call stack size exceeded'')"
| "copyRecursive (Suc d) t src dest =
     (case readdir_withFileTypes t src of
        Inl err \<Rightarrow> Inl err
      | Inr entries \<Rightarrow> copy_entries d t src dest entries)"
| "copy_entries d t src dest [] = Inr t"
| "copy_entries d t src dest ((name, is_dir) # rest) =
     (let srcPath = src @ [name]; destPath = dest @ [name] in
      if is_dir then
        (case (if \<not> existsSync t destPath then mkdirSync t destPath else Inr t) of
           Inl err \<Rightarrow> Inl err
         | Inr t1 \<Rightarrow>
             (case copyRecursive d t1 srcPath destPath of
                Inl err \<Rightarrow> Inl err
              | Inr t2 \<Rightarrow> copy_entries d t2 src dest rest))
      else
        (case copyFileSync t srcPath destPath of
           Inl err \<Rightarrow> Inl err
         | Inr t1 \<Rightarrow> copy_entries d t1 src dest rest))"

fun deleteFolderRecursive :: "nat \<Rightarrow> node \<Rightarrow> path \<Rightarrow> js_error + node"
  and delete_entries :: "nat \<Rightarrow> node \<Rightarrow> path \<Rightarrow> string list \<Rightarrow> js_error + node"
where
  "deleteFolderRecursive 0 t folderPath = Inl (RangeError ''Maximum call stack size exceeded'')"
| "deleteFolderRecursive (Suc d) t folderPath =
     (if existsSync t folderPath then
        (case readdirSync t folderPath of
           Inl err \<Rightarrow> Inl err
         | Inr files \<Rightarrow>
             (case delete_entries d t folderPath files of
                Inl err \<Rightarrow> Inl err
              | Inr t1 \<Rightarrow> rmdirSync t1 folderPath))
      else Inr t)"
| "delete_entries d t folderPath [] = Inr t"
| "delete_entries d t folderPath (file # rest) =
     (let curPath = folderPath @ [file] in
      if \<not> existsSync t curPath then Inl ENOENT
      else if isDirectory t curPath then
        (case deleteFolderRecursive d t curPath of
           Inl err \<Rightarrow> Inl err
         | Inr t1 \<Rightarrow> delete_entries d t1 folderPath rest)
      else
        (case unlinkSync t curPath of
           Inl err \<Rightarrow> Inl err
         | Inr t1 \<Rightarrow> delete_entries d t1 folderPath rest))"

section \<open>Download to a file\<close>

text \<open>
  The answer of \<open>https.get\<close> to a URL: the \<open>'error'\<close> event, or a response with its
  status code, its \<open>Location\<close> header (if any) and its body.
\<close>

datatype get_reply =
    NetFailure js_error
  | Reply (statusCode: nat) (location: "string option") (payload: string)

text \<open>
  How a step of a handler ends: it completes, it throws (or its promise is rejected)
  and the handler's \<open>catch\<close> gets the error, or an exception is raised where no
  \<open>try\<close> or promise of the program holds it (an \<open>'error'\<close> event without a listener, a
  throw inside a callback): then the promise the handler awaits is never settled and
  the model stops at that point.
\<close>

datatype 'a outcome = Done 'a | Thrown js_error | Uncaught

text \<open>The state of a run: the file tree, and the URLs requested so far, oldest first.\<close>

record sys =
  tree :: node
  gets :: "string list"

definition then_do ::
  "'a outcome \<times> sys \<Rightarrow> ('a \<Rightarrow> sys \<Rightarrow> 'b outcome \<times> sys) \<Rightarrow> 'b outcome \<times> sys" where
  "then_do r f =
     (case r of
        (Done x, s) \<Rightarrow> f x s
      | (Thrown err, s) \<Rightarrow> (Thrown err, s)
      | (Uncaught, s) \<Rightarrow> (Uncaught, s))"

definition fs_step :: "(node \<Rightarrow> js_error + node) \<Rightarrow> sys \<Rightarrow> unit outcome \<times> sys" where
  "fs_step f s =
     (case f (tree s) of
        Inl err \<Rightarrow> (Thrown err, s)
      | Inr t \<Rightarrow> (Done (), s\<lparr>tree := t\<rparr>))"

text \<open>
  \<open>fs.createWriteStream(p)\<close> creates or empties the file; it cannot be opened when
  \<open>p\<close> is a directory or has no parent directory.  \<open>fs.unlink(p, () => {})\<close> ignores
  its error.  Piping a response into the stream leaves the body in the file.
\<close>

definition createWriteStream :: "node \<Rightarrow> path \<Rightarrow> node option" where
  "createWriteStream t p =
     (if p = [] \<or> isDirectory t p then None else put t p (File []))"

definition unlink_quietly :: "node \<Rightarrow> path \<Rightarrow> node" where
  "unlink_quietly t p = (case unlinkSync t p of Inl err \<Rightarrow> t | Inr t' \<Rightarrow> t')"

definition pipe_to_file :: "node \<Rightarrow> path \<Rightarrow> string \<Rightarrow> node" where
  "pipe_to_file t p bytes = (case put t p (File bytes) of None \<Rightarrow> t | Some t' \<Rightarrow> t')"

text \<open>
  The download promise of \<open>download-extract-fix\<close>; the one of \<open>download-bypass\<close> is
  the same code with \<open>savePath\<close> for \<open>tempZipPath\<close>.
\<close>

definition download ::
  "(string \<Rightarrow> get_reply) \<Rightarrow> string \<Rightarrow> path \<Rightarrow> sys \<Rightarrow> unit outcome \<times> sys" where
  "download http_get url filePath s =
     (case createWriteStream (tree s) filePath of
        None \<Rightarrow> (Uncaught, s\<lparr>gets := gets s @ [url]\<rparr>)
      | Some t0 \<Rightarrow>
          (let s0 = s\<lparr>tree := t0, gets := gets s @ [url]\<rparr> in
           case http_get url of
             NetFailure err \<Rightarrow> (Thrown err, s0\<lparr>tree := unlink_quietly t0 filePath\<rparr>)
           | Reply status loc bytes \<Rightarrow>
               if status = 302 \<or> status = 301 then
                 (case loc of
                    None \<Rightarrow> (Uncaught, s0)
                  | Some redirectUrl \<Rightarrow>
                      (let s1 = s0\<lparr>gets := gets s0 @ [redirectUrl]\<rparr> in
                       case http_get redirectUrl of
                         NetFailure err \<Rightarrow>
                           (Thrown err, s1\<lparr>tree := unlink_quietly t0 filePath\<rparr>)
                       | Reply status2 loc2 bytes2 \<Rightarrow>
                           (Done (), s1\<lparr>tree := pipe_to_file t0 filePath bytes2\<rparr>)))
               else if status \<noteq> 200 then
                 (Thrown (Error (''Failed to download: '' @ dec status)), s0)
               else (Done (), s0\<lparr>tree := pipe_to_file t0 filePath bytes\<rparr>)))"

section \<open>The extraction chain\<close>

datatype strategy = ExtractZip | SevenZip path | WinRAR path

text \<open>
  What a run of \<open>download-extract-fix\<close> finds around it: the network, \<open>os.tmpdir()\<close>,
  \<open>Date.now()\<close>, the room on the call stack, the two environment variables, which of
  the tool paths exist (\<open>fs.existsSync\<close>; the tools are installed outside the tree and
  a run does not change that), and what a strategy does when it runs on an archive and
  an output folder in a given tree: its error, if it fails, and the output folder as it
  leaves it.  A strategy writes nowhere else.
\<close>

record platform =
  http :: "string \<Rightarrow> get_reply"
  tmpdir :: path
  now :: nat
  stack_limit :: nat
  ProgramFiles :: "string option"
  ProgramFilesX86 :: "string option"
  tool_exists :: "path \<Rightarrow> bool"
  run_tool :: "strategy \<Rightarrow> path \<Rightarrow> path \<Rightarrow> node \<Rightarrow> js_error option \<times> node"

text \<open>
  The variables of the chain, and a log of the strategies that ran, each with its
  error.  The log is not in the program; nothing reads it but the theorems.
\<close>

record chain =
  sys_of :: sys
  extractionSuccess :: bool
  lastError :: "js_error option"
  attempts :: "(strategy \<times> js_error option) list"

text \<open>\<open>process.env.X || d\<close>, joined as a path: unset and empty both give the default.\<close>

definition env_path :: "string option \<Rightarrow> path \<Rightarrow> path" where
  "env_path v d = (case v of None \<Rightarrow> d | Some x \<Rightarrow> if x = [] then d else path_join [] x)"

definition sevenZipPaths :: "platform \<Rightarrow> path list" where
  "sevenZipPaths pf =
     [[''C:'', ''Program Files'', ''7-Zip'', ''7z.exe''],
      [''C:'', ''Program Files (x86)'', ''7-Zip'', ''7z.exe''],
      env_path (ProgramFiles pf) [''C:'', ''Program Files''] @ [''7-Zip'', ''7z.exe''],
      env_path (ProgramFilesX86 pf) [''C:'', ''Program Files (x86)''] @ [''7-Zip'', ''7z.exe'']]"

definition winrarPaths :: "platform \<Rightarrow> path list" where
  "winrarPaths pf =
     [[''C:'', ''Program Files'', ''WinRAR'', ''WinRAR.exe''],
      [''C:'', ''Program Files (x86)'', ''WinRAR'', ''WinRAR.exe''],
      env_path (ProgramFiles pf) [''C:'', ''Program Files''] @ [''WinRAR'', ''WinRAR.exe''],
      env_path (ProgramFilesX86 pf) [''C:'', ''Program Files (x86)''] @ [''WinRAR'', ''WinRAR.exe'']]"

text \<open>One \<open>try\<close>/\<open>catch\<close> around a strategy.\<close>

definition try_strategy :: "platform \<Rightarrow> path \<Rightarrow> path \<Rightarrow> strategy \<Rightarrow> chain \<Rightarrow> chain" where
  "try_strategy pf zipPath dir m c =
     (let t = tree (sys_of c);
          (r, extracted) = run_tool pf m zipPath dir t;
          s1 = (sys_of c)\<lparr>tree := (case put t dir extracted of None \<Rightarrow> t | Some t' \<Rightarrow> t')\<rparr>
      in case r of
           None \<Rightarrow>
             c\<lparr>sys_of := s1, extractionSuccess := True, attempts := attempts c @ [(m, None)]\<rparr>
         | Some err \<Rightarrow>
             c\<lparr>sys_of := s1, lastError := Some err, attempts := attempts c @ [(m, Some err)]\<rparr>)"

text \<open>The \<open>for\<close> loop over the paths of a tool, with its \<open>break\<close>.\<close>

fun tool_loop ::
  "platform \<Rightarrow> path \<Rightarrow> path \<Rightarrow> (path \<Rightarrow> strategy) \<Rightarrow> path list \<Rightarrow> chain \<Rightarrow> chain" where
  "tool_loop pf zipPath dir tool [] c = c"
| "tool_loop pf zipPath dir tool (toolPath # rest) c =
     (if tool_exists pf toolPath then
        (let c1 = try_strategy pf zipPath dir (tool toolPath) c in
         if extractionSuccess c1 then c1 else tool_loop pf zipPath dir tool rest c1)
      else tool_loop pf zipPath dir tool rest c)"

definition extraction_chain :: "platform \<Rightarrow> path \<Rightarrow> path \<Rightarrow> sys \<Rightarrow> chain" where
  "extraction_chain pf zipPath dir s =
     (let c0 = \<lparr>sys_of = s, extractionSuccess = False, lastError = None, attempts = []\<rparr>;
          c1 = try_strategy pf zipPath dir ExtractZip c0;
          c2 = (if \<not> extractionSuccess c1
                then tool_loop pf zipPath dir SevenZip (sevenZipPaths pf) c1 else c1);
          c3 = (if \<not> extractionSuccess c2
                then tool_loop pf zipPath dir WinRAR (winrarPaths pf) c2 else c2)
      in c3)"

text \<open>\<open>lastError?.message || 'Unknown error'\<close> and the error thrown after the chain.\<close>

definition last_error_message :: "js_error option \<Rightarrow> string" where
  "last_error_message e =
     (case e of
        None \<Rightarrow> ''Unknown error''
      | Some err \<Rightarrow> if message err = [] then ''Unknown error'' else message err)"

definition extraction_failed :: "js_error option \<Rightarrow> js_error" where
  "extraction_failed e =
     Error (''All extraction methods failed. Last error: '' @ last_error_message e @
            ''. Please install 7-Zip or WinRAR.'')"

definition extract_archive :: "platform \<Rightarrow> path \<Rightarrow> path \<Rightarrow> sys \<Rightarrow> unit outcome \<times> sys" where
  "extract_archive pf zipPath dir s =
     (let c = extraction_chain pf zipPath dir s in
      if \<not> extractionSuccess c then (Thrown (extraction_failed (lastError c)), sys_of c)
      else (Done (), sys_of c))"

section \<open>Install: the source folder and the copy\<close>

definition find_folder :: "node \<Rightarrow> path \<Rightarrow> string \<Rightarrow> string list \<Rightarrow> string option" where
  "find_folder t dir appID contents =
     List.find (\<lambda>item. isDirectory t (dir @ [item]) \<and> js_includes item appID) contents"

definition resolve_source :: "node \<Rightarrow> path \<Rightarrow> string \<Rightarrow> js_error + path" where
  "resolve_source t extractTempPath appID =
     (let appIDFolder = path_join extractTempPath appID in
      if existsSync t appIDFolder \<and> isDirectory t appIDFolder then Inr appIDFolder
      else
        (case readdirSync t extractTempPath of
           Inl err \<Rightarrow> Inl err
         | Inr contents \<Rightarrow>
             (case find_folder t extractTempPath appID contents of
                Some possibleFolder \<Rightarrow> Inr (extractTempPath @ [possibleFolder])
              | None \<Rightarrow> Inr extractTempPath)))"

definition install :: "platform \<Rightarrow> path \<Rightarrow> string \<Rightarrow> path \<Rightarrow> sys \<Rightarrow> unit outcome \<times> sys" where
  "install pf extractTempPath appID targetFolder s =
     (case resolve_source (tree s) extractTempPath appID of
        Inl err \<Rightarrow> (Thrown err, s)
      | Inr sourceFolder \<Rightarrow>
          fs_step (\<lambda>t. copyRecursive (stack_limit pf) t sourceFolder targetFolder) s)"

section \<open>The handler \<open>download-extract-fix\<close>\<close>

text \<open>\<open>if (!fs.existsSync(p)) fs.mkdirSync(p, {recursive: true})\<close>.\<close>

definition ensure_dir :: "path \<Rightarrow> sys \<Rightarrow> unit outcome \<times> sys" where
  "ensure_dir p s =
     (if \<not> existsSync (tree s) p then fs_step (\<lambda>t. mkdirSync t p) s else (Done (), s))"

definition tempDir_of :: "platform \<Rightarrow> path" where
  "tempDir_of pf = tmpdir pf @ [''online-fix-'' @ dec (now pf)]"

text \<open>
  The \<open>try\<close> block up to the end of the extraction: the temporary workspace, the
  download, the extraction folder, the chain.
\<close>

definition fetch_and_extract :: "platform \<Rightarrow> string \<Rightarrow> string \<Rightarrow> sys \<Rightarrow> unit outcome \<times> sys" where
  "fetch_and_extract pf url fileName s =
     (let tempDir = tempDir_of pf;
          tempZipPath = path_join tempDir fileName;
          extractTempPath = tempDir @ [''extracted'']
      in
      then_do (ensure_dir tempDir s) (\<lambda>u s.
      then_do (download (http pf) url tempZipPath s) (\<lambda>u s.
      then_do (ensure_dir extractTempPath s) (\<lambda>u s.
      extract_archive pf tempZipPath extractTempPath s))))"

text \<open>The rest of the \<open>try\<close> block: the copy into the target folder, then the clean-up.\<close>

definition fix_try ::
  "platform \<Rightarrow> string \<Rightarrow> path \<Rightarrow> string \<Rightarrow> string \<Rightarrow> sys \<Rightarrow> unit outcome \<times> sys" where
  "fix_try pf url targetFolder appID fileName s =
     then_do (fetch_and_extract pf url fileName s) (\<lambda>u s.
     then_do (install pf (tempDir_of pf @ [''extracted'']) appID targetFolder s) (\<lambda>u s.
     fs_step (\<lambda>t. deleteFolderRecursive (stack_limit pf) t (tempDir_of pf)) s))"

datatype fix_result = FixDone string | FixFailed string | NoResult

definition download_extract_fix ::
  "platform \<Rightarrow> string \<Rightarrow> path \<Rightarrow> string \<Rightarrow> string \<Rightarrow> sys \<Rightarrow> fix_result \<times> sys" where
  "download_extract_fix pf url targetFolder appID fileName s =
     (case fix_try pf url targetFolder appID fileName s of
        (Done u, s1) \<Rightarrow> (FixDone ''Fix extracted successfully!'', s1)
      | (Thrown err, s1) \<Rightarrow> (FixFailed (message err), s1)
      | (Uncaught, s1) \<Rightarrow> (NoResult, s1))"

section \<open>The extraction chain as a first-success runner\<close>

text \<open>
  The chain in the words of its description: one ordered list of strategies, the
  library first, then 7-Zip at each of its paths, then WinRAR at each of its paths; a
  strategy is available when it is the library or its tool exists; the runner tries
  the available strategies in order and stops at the first that succeeds.
\<close>

definition strategies :: "platform \<Rightarrow> strategy list" where
  "strategies pf =
     ExtractZip # map SevenZip (sevenZipPaths pf) @ map WinRAR (winrarPaths pf)"

fun available :: "platform \<Rightarrow> strategy \<Rightarrow> bool" where
  "available pf ExtractZip = True"
| "available pf (SevenZip p) = tool_exists pf p"
| "available pf (WinRAR p) = tool_exists pf p"

fun first_success :: "platform \<Rightarrow> path \<Rightarrow> path \<Rightarrow> strategy list \<Rightarrow> chain \<Rightarrow> chain" where
  "first_success pf zipPath dir [] c = c"
| "first_success pf zipPath dir (m # ms) c =
     (if available pf m then
        (let c1 = try_strategy pf zipPath dir m c in
         if extractionSuccess c1 then c1 else first_success pf zipPath dir ms c1)
      else first_success pf zipPath dir ms c)"

definition chain_start :: "sys \<Rightarrow> chain" where
  "chain_start s = \<lparr>sys_of = s, extractionSuccess = False, lastError = None, attempts = []\<rparr>"

definition failed_attempt :: "strategy \<times> js_error option \<Rightarrow> bool" where
  "failed_attempt a = (snd a \<noteq> None)"

section \<open>Names and paths that stay apart\<close>

text \<open>
  A plain name is one segment: not empty, not \<open>.\<close> or \<open>..\<close>, without a separator.
  Two paths are apart when neither is a prefix of the other: neither folder is the
  other or lies inside it.
\<close>

definition plain_name :: "string \<Rightarrow> bool" where
  "plain_name s = (s \<noteq> [] \<and> s \<noteq> ''.'' \<and> s \<noteq> ''..'' \<and> list_all (\<lambda>c. \<not> is_sep c) s)"

definition apart :: "path \<Rightarrow> path \<Rightarrow> bool" where
  "apart p q = (\<not> prefix p q \<and> \<not> prefix q p)"

section \<open>The install source in the words of its description\<close>

text \<open>
  Among the entries of the extraction root: the child directory named exactly as the
  identifier, if there is one; otherwise the first child directory, in the order of
  the listing, whose name contains the identifier; otherwise the root itself.
\<close>

definition is_child_dir :: "(string \<times> node) list \<Rightarrow> string \<Rightarrow> bool" where
  "is_child_dir es name = (case map_of es name of Some (Dir x) \<Rightarrow> True | _ \<Rightarrow> False)"

definition install_source :: "(string \<times> node) list \<Rightarrow> path \<Rightarrow> string \<Rightarrow> path" where
  "install_source es extractedRoot identifier =
     (if is_child_dir es identifier then extractedRoot @ [identifier]
      else
        (case List.find (\<lambda>name. is_child_dir es name \<and> js_includes name identifier) (map fst es) of
           Some name \<Rightarrow> extractedRoot @ [name]
         | None \<Rightarrow> extractedRoot))"

section \<open>A platform to run the handler on\<close>

definition demo_tree :: node where
  "demo_tree =
     Dir [(''tmp'', Dir []),
          (''games'', Dir [(''tf2'', Dir [(''fix.dll'', File ''old'')])])]"

definition demo_http :: "string \<Rightarrow> get_reply" where
  "demo_http url =
     (if url = ''https://host/fix.zip'' then Reply 200 None ''PK-fix''
      else if url = ''https://host/broken.zip'' then Reply 200 None ''garbage''
      else if url = ''https://host/moved.zip'' then Reply 302 (Some ''https://cdn/gone.zip'') []
      else if url = ''https://cdn/gone.zip'' then Reply 404 None ''Not Found''
      else if url = ''https://host/missing.zip'' then Reply 404 None ''Not Found''
      else NetFailure (NetworkError ''getaddrinfo ENOTFOUND''))"

definition demo_unzip :: "strategy \<Rightarrow> path \<Rightarrow> path \<Rightarrow> node \<Rightarrow> js_error option \<times> node" where
  "demo_unzip m zipPath dir t =
     (if lookup t zipPath = Some (File ''PK-fix'') \<and> m = ExtractZip
      then (None, Dir [(''440'', Dir [(''fix.dll'', File ''new'')])])
      else (Some (Error ''end of central directory record signature not found''), Dir []))"

definition demo_pf :: platform where
  "demo_pf =
     \<lparr>http = demo_http, tmpdir = [''tmp''], now = 42, stack_limit = 100,
      ProgramFiles = None, ProgramFilesX86 = None,
      tool_exists = (\<lambda>p. False), run_tool = demo_unzip\<rparr>"

definition demo_sys :: sys where
  "demo_sys = \<lparr>tree = demo_tree, gets = []\<rparr>"

definition extracted_tree :: node where
  "extracted_tree =
     Dir [(''x'', Dir [(''readme.txt'', File ''r''),
                      (''440_fix'', Dir [(''fix.dll'', File ''new'')]),
                      (''other'', Dir [])])]"

definition tools_pf :: platform where
  "tools_pf =
     \<lparr>http = demo_http, tmpdir = [''tmp''], now = 42, stack_limit = 100,
      ProgramFiles = Some ''D:/Apps'', ProgramFilesX86 = None,
      tool_exists = (\<lambda>p. p = [''D:'', ''Apps'', ''7-Zip'', ''7z.exe''] \<or>
                          p = [''C:'', ''Program Files'', ''WinRAR'', ''WinRAR.exe'']),
      run_tool = (\<lambda>m zipPath dir t.
        if m = ExtractZip then (Some (Error ''invalid zip''), Dir [])
        else (None, Dir [(''440'', Dir [])]))\<rparr>"

section \<open>Properties of the catalog cache manager\<close>

text \<open>
  A request only touches the request counter and the clock.  With a fresh cache file
  the lookup is the parse of the file, also when \<open>data.applist.apps.length\<close> throws
  in the \<open>try\<close> block: the \<open>catch\<close> block then reads the same file again.
\<close>

lemma fresh_lookup:
  "cache w = Some f \<Longrightarrow> clock w - mtime f < CACHE_DURATION \<Longrightarrow>
   getSteamAppList e w = (JSON_parse e (content f), w)"
  by (simp add: getSteamAppList_def getSteamAppList_try_def getSteamAppList_catch_def
      isCacheValid_def read_cache_def split: sum.splits)

lemma fetch_world:
  "fetchSteamAppList e w = (r, w1) \<Longrightarrow>
   w1 = w\<lparr>requests := Suc (requests w), clock := clock w + int (latency e)\<rparr>"
  by (auto simp: fetchSteamAppList_def Let_def split: sum.splits)

lemma fetch_cache: "fetchSteamAppList e w = (r, w1) \<Longrightarrow> cache w1 = cache w"
  by (auto dest: fetch_world)

lemma fetch_requests: "fetchSteamAppList e w = (r, w1) \<Longrightarrow> requests w1 = Suc (requests w)"
  by (auto dest: fetch_world)

lemma stale_fetch_failed:
  "\<not> isCacheValid w \<Longrightarrow> fetchSteamAppList e w = (Inl err, w1) \<Longrightarrow>
   getSteamAppList e w = (if cache w \<noteq> None then (read_cache e w1, w1) else (Inl err, w1))"
  by (auto simp: getSteamAppList_def getSteamAppList_try_def getSteamAppList_catch_def
      dest: fetch_cache)

lemma read_cache_fetch:
  "fetchSteamAppList e w = (r, w1) \<Longrightarrow> read_cache e w1 = read_cache e w"
  by (simp add: read_cache_def fetch_cache)

lemmas toy = online_def offline_def world_with_def toy_parse_def toy_stringify_def catalog_of_def

lemmas lookup_defs = getSteamAppList_def getSteamAppList_try_def getSteamAppList_catch_def
  isCacheValid_def read_cache_def fetchSteamAppList_def apps_length_def CACHE_DURATION_def
  get_steam_applist_def build_app_map_def

lemma offline_fetch:
  "fetchSteamAppList offline (world_with c) =
     (Inl (NetworkError ''getaddrinfo ENOTFOUND''),
      \<lparr>cache = c, clock = 1000000000250, requests = 1\<rparr>)"
  by (simp add: fetchSteamAppList_def toy)

lemma online_fetch:
  "fetchSteamAppList online (world_with c) =
     (Inr (catalog_of [(440, ''Team Fortress 2''), (570, ''Dota 2'')]),
      \<lparr>cache = c, clock = 1000000000250, requests = 1\<rparr>)"
  by (simp add: fetchSteamAppList_def apps_length_def toy)

text \<open>
  C2.  For every age of the cache file: when the file exists and is younger than seven
  days (by its last-modified time), the lookup returns what parsing the text of the file
  gives and leaves the world as it is, so no request is sent; when the file is seven
  days old or older and the remote fetch succeeds, the lookup sends one request,
  returns the fetched catalog and overwrites the cache file with it.
\<close>

theorem cache_window:
  "cache w = Some f \<Longrightarrow>
   (clock w - mtime f < CACHE_DURATION \<longrightarrow>
      getSteamAppList e w = (JSON_parse e (content f), w)) \<and>
   (CACHE_DURATION \<le> clock w - mtime f \<longrightarrow> fetchSteamAppList e w = (Inr fresh, w1) \<longrightarrow>
      requests w1 = Suc (requests w) \<and>
      getSteamAppList e w =
        (Inr fresh, w1\<lparr>cache := Some \<lparr>mtime = clock w1, content = JSON_stringify e fresh\<rparr>\<rparr>))"
proof (intro conjI impI)
  assume "cache w = Some f" "clock w - mtime f < CACHE_DURATION"
  then show "getSteamAppList e w = (JSON_parse e (content f), w)" by (rule fresh_lookup)
next
  assume "fetchSteamAppList e w = (Inr fresh, w1)"
  then show "requests w1 = Suc (requests w)" by (rule fetch_requests)
next
  assume "cache w = Some f" "CACHE_DURATION \<le> clock w - mtime f"
    "fetchSteamAppList e w = (Inr fresh, w1)"
  then show "getSteamAppList e w =
        (Inr fresh, w1\<lparr>cache := Some \<lparr>mtime = clock w1, content = JSON_stringify e fresh\<rparr>\<rparr>)"
    by (simp add: getSteamAppList_def getSteamAppList_try_def isCacheValid_def)
qed

theorem cache_window_witness:
  "getSteamAppList online (world_with (Some \<lparr>mtime = 999999999000, content = ''old''\<rparr>)) =
     (Inr (catalog_of [(440, ''Team Fortress 2'')]),
      world_with (Some \<lparr>mtime = 999999999000, content = ''old''\<rparr>)) \<and>
   getSteamAppList online (world_with (Some \<lparr>mtime = 0, content = ''old''\<rparr>)) =
     (Inr (catalog_of [(440, ''Team Fortress 2''), (570, ''Dota 2'')]),
      \<lparr>cache = Some \<lparr>mtime = 1000000000250, content = ''new''\<rparr>,
       clock = 1000000000250, requests = 1\<rparr>)"
proof -
  let ?f = "\<lparr>mtime = 999999999000, content = ''old''\<rparr>"
  let ?g = "\<lparr>mtime = 0, content = ''old''\<rparr>"
  have "cache (world_with (Some ?f)) = Some ?f" by (simp add: world_with_def)
  moreover have "clock (world_with (Some ?f)) - mtime ?f < CACHE_DURATION"
    by (simp add: world_with_def CACHE_DURATION_def)
  moreover have "JSON_parse online (content ?f) = Inr (catalog_of [(440, ''Team Fortress 2'')])"
    by (simp add: toy)
  ultimately have 1: "getSteamAppList online (world_with (Some ?f)) =
     (Inr (catalog_of [(440, ''Team Fortress 2'')]), world_with (Some ?f))"
    using cache_window [of "world_with (Some ?f)" ?f online] by simp
  have "cache (world_with (Some ?g)) = Some ?g" by (simp add: world_with_def)
  moreover have "CACHE_DURATION \<le> clock (world_with (Some ?g)) - mtime ?g"
    by (simp add: world_with_def CACHE_DURATION_def)
  ultimately have 2: "getSteamAppList online (world_with (Some ?g)) =
     (Inr (catalog_of [(440, ''Team Fortress 2''), (570, ''Dota 2'')]),
      \<lparr>cache = Some ?g, clock = 1000000000250, requests = 1\<rparr>
        \<lparr>cache := Some \<lparr>mtime = clock \<lparr>cache = Some ?g, clock = 1000000000250, requests = 1\<rparr>,
           content = JSON_stringify online
             (catalog_of [(440, ''Team Fortress 2''), (570, ''Dota 2'')])\<rparr>\<rparr>)"
    using cache_window [of "world_with (Some ?g)" ?g] online_fetch [of "Some ?g"] by blast
  have "JSON_stringify online (catalog_of [(440, ''Team Fortress 2''), (570, ''Dota 2'')]) = ''new''"
    by (simp add: toy)
  with 1 2 show ?thesis by simp
qed

text \<open>
  C3.  When the remote fetch fails: a stale cache file that parses is returned as a
  success (by \<open>getSteamAppList\<close>, and by the handler when the snapshot has the
  catalog's shape); with no cache file the failure of the fetch is the failure of the
  lookup, reported by the handler with the message of the fetch error.
\<close>

theorem stale_fallback:
  "fetchSteamAppList e w = (Inl err, w1) \<Longrightarrow>
   (\<forall>f data. cache w = Some f \<and> CACHE_DURATION \<le> clock w - mtime f \<and>
        JSON_parse e (content f) = Inr data \<longrightarrow>
        getSteamAppList e w = (Inr data, w1) \<and>
        (\<forall>m. build_app_map data = Inr m \<longrightarrow>
           (\<exists>c. get_steam_applist e w = (AppList m (length m) c, w1)))) \<and>
   (cache w = None \<longrightarrow>
        getSteamAppList e w = (Inl err, w1) \<and>
        get_steam_applist e w = (AppListError (message err), w1))"
proof (intro conjI allI impI)
  fix f data
  assume f: "fetchSteamAppList e w = (Inl err, w1)"
    and c: "cache w = Some f \<and> CACHE_DURATION \<le> clock w - mtime f \<and>
        JSON_parse e (content f) = Inr data"
  from c have stale: "\<not> isCacheValid w" by (simp add: isCacheValid_def)
  from c have "read_cache e w = Inr data" by (simp add: read_cache_def)
  with f have "read_cache e w1 = Inr data" by (simp add: read_cache_fetch)
  with stale_fetch_failed [OF stale f] c
  show g: "getSteamAppList e w = (Inr data, w1)" by simp
  fix m
  assume "build_app_map data = Inr m"
  with g show "\<exists>c. get_steam_applist e w = (AppList m (length m) c, w1)"
    by (simp add: get_steam_applist_def)
next
  assume f: "fetchSteamAppList e w = (Inl err, w1)" and n: "cache w = None"
  from n have stale: "\<not> isCacheValid w" by (simp add: isCacheValid_def)
  from stale_fetch_failed [OF stale f] n
  show g: "getSteamAppList e w = (Inl err, w1)" by simp
  then show "get_steam_applist e w = (AppListError (message err), w1)"
    by (simp add: get_steam_applist_def)
qed

theorem stale_fallback_witness:
  "getSteamAppList offline (world_with (Some \<lparr>mtime = 0, content = ''old''\<rparr>)) =
     (Inr (catalog_of [(440, ''Team Fortress 2'')]),
      \<lparr>cache = Some \<lparr>mtime = 0, content = ''old''\<rparr>, clock = 1000000000250, requests = 1\<rparr>) \<and>
   fst (get_steam_applist offline (world_with (Some \<lparr>mtime = 0, content = ''old''\<rparr>))) \<noteq>
     AppListError ''getaddrinfo ENOTFOUND'' \<and>
   get_steam_applist offline (world_with None) =
     (AppListError ''getaddrinfo ENOTFOUND'',
      \<lparr>cache = None, clock = 1000000000250, requests = 1\<rparr>)"
proof -
  let ?f = "\<lparr>mtime = 0, content = ''old''\<rparr>"
  let ?d = "catalog_of [(440, ''Team Fortress 2'')]"
  have p: "cache (world_with (Some ?f)) = Some ?f \<and>
      CACHE_DURATION \<le> clock (world_with (Some ?f)) - mtime ?f \<and>
      JSON_parse offline (content ?f) = Inr ?d"
    by (simp add: toy CACHE_DURATION_def)
  have b: "build_app_map ?d = Inr [(Some (JNum 440), Some (JStr ''Team Fortress 2''))]"
    by (simp add: build_app_map_def catalog_of_def)
  have n: "cache (world_with None) = None" by (simp add: world_with_def)
  from stale_fallback [OF offline_fetch [of "Some ?f"]] p b
  have 1: "getSteamAppList offline (world_with (Some ?f)) =
     (Inr ?d, \<lparr>cache = Some ?f, clock = 1000000000250, requests = 1\<rparr>)"
    and 2: "\<exists>c. get_steam_applist offline (world_with (Some ?f)) =
      (AppList [(Some (JNum 440), Some (JStr ''Team Fortress 2''))] 1 c,
       \<lparr>cache = Some ?f, clock = 1000000000250, requests = 1\<rparr>)"
    by auto
  from stale_fallback [OF offline_fetch [of None]] n
  have 3: "get_steam_applist offline (world_with None) =
     (AppListError ''getaddrinfo ENOTFOUND'',
      \<lparr>cache = None, clock = 1000000000250, requests = 1\<rparr>)"
    by simp
  from 2 have 4: "fst (get_steam_applist offline (world_with (Some ?f))) \<noteq>
     AppListError ''getaddrinfo ENOTFOUND''" by auto
  from 1 3 4 show ?thesis by simp
qed

text \<open>
  The value of the \<open>cached\<close> flag of a successful lookup that did not find a fresh
  cache file: true after every fetch, false after every fallback to the stale file.
\<close>

lemma cached_after_fetch:
  assumes "\<not> isCacheValid w" and "fetchSteamAppList e w = (Inr data, w1)"
    and "build_app_map data = Inr m"
  shows "fst (get_steam_applist e w) = AppList m (length m) True"
  using assms
  by (simp add: get_steam_applist_def getSteamAppList_def getSteamAppList_try_def
      isCacheValid_def CACHE_DURATION_def)

lemma cached_after_fallback:
  assumes "cache w = Some f" and "CACHE_DURATION \<le> clock w - mtime f"
    and "fetchSteamAppList e w = (Inl err, w1)"
    and "JSON_parse e (content f) = Inr data" and "build_app_map data = Inr m"
  shows "fst (get_steam_applist e w) = AppList m (length m) False"
proof -
  from assms(1,2) have stale: "\<not> isCacheValid w" by (simp add: isCacheValid_def)
  from assms(1,4) have "read_cache e w = Inr data" by (simp add: read_cache_def)
  with assms(3) have "read_cache e w1 = Inr data" by (simp add: read_cache_fetch)
  with stale_fetch_failed [OF stale assms(3)] assms(1)
  have g: "getSteamAppList e w = (Inr data, w1)" by simp
  from fetch_world [OF assms(3)] assms(1,2) have "\<not> isCacheValid w1"
    by (simp add: isCacheValid_def)
  with g assms(5) show ?thesis by (simp add: get_steam_applist_def)
qed

text \<open>
  C4.  The \<open>cached\<close> flag of the handler is \<open>isCacheValid()\<close> evaluated after the
  lookup.  With no cache file and a reachable catalog the data is fetched and persisted
  in this lookup, and the flag is true, since the file just written is fresh; with a
  stale cache file and an unreachable catalog the data is read from the cache file, and
  the flag is false, since the file is still stale.
\<close>

theorem cached_flag_mismatch:
  "get_steam_applist online (world_with None) =
     (AppList [(Some (JNum 440), Some (JStr ''Team Fortress 2'')),
               (Some (JNum 570), Some (JStr ''Dota 2''))] 2 True,
      \<lparr>cache = Some \<lparr>mtime = 1000000000250, content = ''new''\<rparr>,
       clock = 1000000000250, requests = 1\<rparr>) \<and>
   get_steam_applist offline (world_with (Some \<lparr>mtime = 0, content = ''old''\<rparr>)) =
     (AppList [(Some (JNum 440), Some (JStr ''Team Fortress 2''))] 1 False,
      \<lparr>cache = Some \<lparr>mtime = 0, content = ''old''\<rparr>,
       clock = 1000000000250, requests = 1\<rparr>)"
  by (simp add: lookup_defs toy)

text \<open>
  C8.  A cache file whose text does not parse is never returned as data, and whether
  a fetch is attempted depends on its age alone.  A fresh one (younger than seven days)
  makes the lookup fail with the parse error and without any request.  A stale one
  makes the lookup send its request as for an absent cache: when the fetch succeeds
  the lookup is the lookup with no cache file, when the fetch fails the lookup fails
  (with the parse error of the file).
\<close>

theorem corrupted_cache:
  "cache w = Some f \<Longrightarrow> JSON_parse e (content f) = Inl perr \<Longrightarrow>
   (clock w - mtime f < CACHE_DURATION \<longrightarrow> getSteamAppList e w = (Inl perr, w)) \<and>
   (CACHE_DURATION \<le> clock w - mtime f \<longrightarrow>
      requests (snd (getSteamAppList e w)) = Suc (requests w) \<and>
      (\<forall>data w1. fetchSteamAppList e w = (Inr data, w1) \<longrightarrow>
         getSteamAppList e w = getSteamAppList e (w\<lparr>cache := None\<rparr>)) \<and>
      (\<forall>err w1. fetchSteamAppList e w = (Inl err, w1) \<longrightarrow>
         getSteamAppList e w = (Inl perr, w1)))"
proof (intro conjI allI impI)
  assume "cache w = Some f" "JSON_parse e (content f) = Inl perr"
    "clock w - mtime f < CACHE_DURATION"
  then show "getSteamAppList e w = (Inl perr, w)"
    by (simp add: getSteamAppList_def getSteamAppList_try_def getSteamAppList_catch_def
        isCacheValid_def read_cache_def)
next
  assume c: "cache w = Some f" and s: "CACHE_DURATION \<le> clock w - mtime f"
  obtain r w1 where f: "fetchSteamAppList e w = (r, w1)" by (cases "fetchSteamAppList e w")
  from c s have stale: "\<not> isCacheValid w" by (simp add: isCacheValid_def)
  show "requests (snd (getSteamAppList e w)) = Suc (requests w)"
  proof (cases r)
    case (Inl err)
    with stale_fetch_failed [OF stale] f c show ?thesis by (simp add: fetch_requests)
  next
    case (Inr data)
    with f stale show ?thesis
      by (simp add: getSteamAppList_def getSteamAppList_try_def fetch_requests)
  qed
next
  fix data w1
  assume c: "cache w = Some f" and s: "CACHE_DURATION \<le> clock w - mtime f"
    and f: "fetchSteamAppList e w = (Inr data, w1)"
  from c s have stale: "\<not> isCacheValid w" by (simp add: isCacheValid_def)
  have stale': "\<not> isCacheValid (w\<lparr>cache := None\<rparr>)" by (simp add: isCacheValid_def)
  from f have f': "fetchSteamAppList e (w\<lparr>cache := None\<rparr>) = (Inr data, w1\<lparr>cache := None\<rparr>)"
    by (auto simp: fetchSteamAppList_def Let_def split: sum.splits)
  from stale stale' f f' show "getSteamAppList e w = getSteamAppList e (w\<lparr>cache := None\<rparr>)"
    by (simp add: getSteamAppList_def getSteamAppList_try_def)
next
  fix err w1
  assume c: "cache w = Some f" and p: "JSON_parse e (content f) = Inl perr"
    and s: "CACHE_DURATION \<le> clock w - mtime f"
    and f: "fetchSteamAppList e w = (Inl err, w1)"
  from c s have stale: "\<not> isCacheValid w" by (simp add: isCacheValid_def)
  from c p have "read_cache e w = Inl perr" by (simp add: read_cache_def)
  with f have "read_cache e w1 = Inl perr" by (simp add: read_cache_fetch)
  with stale_fetch_failed [OF stale f] c show "getSteamAppList e w = (Inl perr, w1)" by simp
qed

theorem corrupted_cache_witness:
  "getSteamAppList offline (world_with (Some \<lparr>mtime = 999999999000, content = ''garbage''\<rparr>)) =
     (Inl (SyntaxError ''Unexpected token''),
      world_with (Some \<lparr>mtime = 999999999000, content = ''garbage''\<rparr>)) \<and>
   getSteamAppList offline (world_with (Some \<lparr>mtime = 0, content = ''garbage''\<rparr>)) =
     (Inl (SyntaxError ''Unexpected token''),
      \<lparr>cache = Some \<lparr>mtime = 0, content = ''garbage''\<rparr>,
       clock = 1000000000250, requests = 1\<rparr>) \<and>
   getSteamAppList online (world_with (Some \<lparr>mtime = 0, content = ''garbage''\<rparr>)) =
     getSteamAppList online (world_with (Some \<lparr>mtime = 0, content = ''garbage''\<rparr>)\<lparr>cache := None\<rparr>)"
proof -
  let ?f = "\<lparr>mtime = 999999999000, content = ''garbage''\<rparr>"
  let ?g = "\<lparr>mtime = 0, content = ''garbage''\<rparr>"
  have pf: "JSON_parse offline (content ?f) = Inl (SyntaxError ''Unexpected token'')"
    and pg: "JSON_parse offline (content ?g) = Inl (SyntaxError ''Unexpected token'')"
    and pg': "JSON_parse online (content ?g) = Inl (SyntaxError ''Unexpected token'')"
    by (simp_all add: toy)
  have cf: "cache (world_with (Some ?f)) = Some ?f"
    and cg: "cache (world_with (Some ?g)) = Some ?g"
    by (simp_all add: world_with_def)
  have af: "clock (world_with (Some ?f)) - mtime ?f < CACHE_DURATION"
    and ag: "CACHE_DURATION \<le> clock (world_with (Some ?g)) - mtime ?g"
    by (simp_all add: world_with_def CACHE_DURATION_def)
  from corrupted_cache [OF cf pf] af
  have 1: "getSteamAppList offline (world_with (Some ?f)) =
     (Inl (SyntaxError ''Unexpected token''), world_with (Some ?f))" by blast
  from corrupted_cache [OF cg pg] ag offline_fetch [of "Some ?g"]
  have 2: "getSteamAppList offline (world_with (Some ?g)) =
     (Inl (SyntaxError ''Unexpected token''),
      \<lparr>cache = Some ?g, clock = 1000000000250, requests = 1\<rparr>)" by blast
  from corrupted_cache [OF cg pg'] ag online_fetch [of "Some ?g"]
  have 3: "getSteamAppList online (world_with (Some ?g)) =
     getSteamAppList online (world_with (Some ?g)\<lparr>cache := None\<rparr>)" by blast
  from 1 2 3 show ?thesis by simp
qed

text \<open>
  The claim as first stated has a corrupted cache file treated as an absent one when
  deciding whether to fetch.  With a fresh corrupted file and a reachable catalog the
  lookup fails and sends no request, where the lookup with no cache file sends one.
\<close>

theorem corrupted_fresh_cache_counterexample:
  "JSON_parse online ''garbage'' = Inl (SyntaxError ''Unexpected token'') \<and>
   getSteamAppList online (world_with (Some \<lparr>mtime = 999999999000, content = ''garbage''\<rparr>)) =
     (Inl (SyntaxError ''Unexpected token''),
      \<lparr>cache = Some \<lparr>mtime = 999999999000, content = ''garbage''\<rparr>,
       clock = 1000000000000, requests = 0\<rparr>) \<and>
   requests (snd (getSteamAppList online (world_with None))) = 1"
  by (simp add: lookup_defs toy)

section \<open>Properties of \<open>fetch-remote-file\<close>\<close>

text \<open>
  What the regular expression finds: a group is a non-empty run without \<open>;\<close> that
  follows \<open>charset=\<close> and ends at a \<open>;\<close> or at the end of the header; there is no
  group only if every \<open>charset=\<close> of the header is followed by \<open>;\<close> or by nothing.
\<close>

lemma js_includes_sublist: "js_includes s t \<longleftrightarrow> sublist t s"
  by (induction s) (simp_all add: sublist_Cons_right)

lemma charset_here_Some:
  assumes "charset_here s = Some m"
  shows "\<exists>key rest. s = key @ m @ rest \<and> js_toLowerCase key = ''charset='' \<and>
           m \<noteq> [] \<and> CHR '';'' \<notin> set m \<and> (rest = [] \<or> hd rest = CHR '';'')"
proof -
  let ?v = "drop 8 s"
  from assms have k: "js_toLowerCase (take 8 s) = ''charset=''"
    and m: "m = takeWhile (\<lambda>c. c \<noteq> CHR '';'') ?v" and ne: "m \<noteq> []"
    by (auto simp: charset_here_def split: if_splits)
  have "s = take 8 s @ m @ dropWhile (\<lambda>c. c \<noteq> CHR '';'') ?v"
    by (simp add: m)
  moreover have "CHR '';'' \<notin> set m"
    using m by (auto dest: set_takeWhileD)
  moreover have "dropWhile (\<lambda>c. c \<noteq> CHR '';'') ?v = [] \<or>
      hd (dropWhile (\<lambda>c. c \<noteq> CHR '';'') ?v) = CHR '';''"
    using hd_dropWhile [of "\<lambda>c. c \<noteq> CHR '';''" ?v] by auto
  ultimately show ?thesis using k ne by blast
qed

lemma charset_match_Some:
  "charset_match s = Some m \<Longrightarrow>
   \<exists>pre key rest. s = pre @ key @ m @ rest \<and> js_toLowerCase key = ''charset='' \<and>
           m \<noteq> [] \<and> CHR '';'' \<notin> set m \<and> (rest = [] \<or> hd rest = CHR '';'')"
proof (induction s)
  case Nil
  then show ?case by simp
next
  case (Cons c cs)
  show ?case
  proof (cases "charset_here (c # cs)")
    case None
    with Cons.prems have "charset_match cs = Some m" by simp
    from Cons.IH [OF this] obtain pre key rest where
      "cs = pre @ key @ m @ rest" "js_toLowerCase key = ''charset=''"
      "m \<noteq> []" "CHR '';'' \<notin> set m" "rest = [] \<or> hd rest = CHR '';''" by blast
    then have "c # cs = (c # pre) @ key @ m @ rest" by simp
    with \<open>js_toLowerCase key = ''charset=''\<close> \<open>m \<noteq> []\<close> \<open>CHR '';'' \<notin> set m\<close>
      \<open>rest = [] \<or> hd rest = CHR '';''\<close>
    show ?thesis by blast
  next
    case (Some m')
    with Cons.prems have "m' = m" by simp
    with Some charset_here_Some [of "c # cs" m] obtain key rest where
      "c # cs = [] @ key @ m @ rest" "js_toLowerCase key = ''charset=''"
      "m \<noteq> []" "CHR '';'' \<notin> set m" "rest = [] \<or> hd rest = CHR '';''" by auto
    then show ?thesis by blast
  qed
qed

lemma charset_here_None:
  assumes "charset_here (key @ v # rest) = None" "js_toLowerCase key = ''charset=''"
  shows "v = CHR '';''"
proof -
  have "length (js_toLowerCase key) = length ''charset=''" by (simp only: assms(2))
  then have "length key = 8" by (simp add: js_toLowerCase_def)
  with assms show ?thesis
    by (auto simp: charset_here_def split: if_splits)
qed

lemma charset_match_None:
  "charset_match s = None \<Longrightarrow> s = pre @ key @ v # rest \<Longrightarrow>
   js_toLowerCase key = ''charset='' \<Longrightarrow> v = CHR '';''"
proof (induction s arbitrary: pre)
  case Nil
  then show ?case by simp
next
  case (Cons c cs)
  from Cons.prems(1) have h: "charset_here (c # cs) = None" and m: "charset_match cs = None"
    by (auto split: option.splits)
  show ?case
  proof (cases pre)
    case Nil
    with Cons.prems(2) h have "charset_here (key @ v # rest) = None" by simp
    then show ?thesis using Cons.prems(3) by (rule charset_here_None)
  next
    case (Cons p ps)
    with Cons.prems(2) have "cs = ps @ key @ v # rest" by simp
    from Cons.IH [OF m this Cons.prems(3)] show ?thesis .
  qed
qed

text \<open>
  C9.  The encoding is the \<open>charset=\<close> parameter of the \<open>Content-Type\<close> header
  (the non-empty text between \<open>charset=\<close>, in any case, and the next \<open>;\<close> or the
  end of the header), trimmed and in lower case, when the header has one, and \<open>utf8\<close>
  otherwise.  For a URL
  that contains \<open>online-fix.me\<close> it is replaced by \<open>windows-1251\<close> exactly when it is
  the literal \<open>utf8\<close>: when no charset is given, and also when the charset given is
  \<open>utf8\<close>.  If \<open>iconv.decode\<close> throws under the encoding chosen, the handler returns
  the UTF-8 decoding of the bytes; otherwise what \<open>iconv.decode\<close> returns.
\<close>

theorem encoding_choice:
  "(charset_match ct = None \<longrightarrow>
      (\<forall>pre key v rest. ct = pre @ key @ v # rest \<and> js_toLowerCase key = ''charset='' \<longrightarrow>
         v = CHR '';'') \<and>
      choose_encoding url (Some ct) =
        (if js_includes url ''online-fix.me'' then ''windows-1251'' else ''utf8'')) \<and>
   (\<forall>m. charset_match ct = Some m \<longrightarrow>
      (\<exists>pre key rest. ct = pre @ key @ m @ rest \<and> js_toLowerCase key = ''charset='' \<and>
         m \<noteq> [] \<and> CHR '';'' \<notin> set m \<and> (rest = [] \<or> hd rest = CHR '';'')) \<and>
      choose_encoding url (Some ct) =
        (if js_includes url ''online-fix.me'' \<and> js_toLowerCase (js_trim m) = ''utf8''
         then ''windows-1251'' else js_toLowerCase (js_trim m))) \<and>
   choose_encoding url None =
     (if js_includes url ''online-fix.me'' then ''windows-1251'' else ''utf8'') \<and>
   (\<forall>err. iconv_decode lib buf (choose_encoding url h) = Inl err \<longrightarrow>
      fetch_remote_file lib url (Inr \<lparr>content_type = h, body = buf\<rparr>) =
        Inr (utf8_toString lib buf)) \<and>
   (\<forall>d. iconv_decode lib buf (choose_encoding url h) = Inr d \<longrightarrow>
      fetch_remote_file lib url (Inr \<lparr>content_type = h, body = buf\<rparr>) = Inr d)"
proof (intro conjI allI impI)
  fix pre key v rest
  assume "charset_match ct = None"
    and "ct = pre @ key @ v # rest \<and> js_toLowerCase key = ''charset=''"
  then show "v = CHR '';''" by (auto dest: charset_match_None)
next
  fix m
  assume "charset_match ct = Some m"
  then show "\<exists>pre key rest. ct = pre @ key @ m @ rest \<and> js_toLowerCase key = ''charset='' \<and>
         m \<noteq> [] \<and> CHR '';'' \<notin> set m \<and> (rest = [] \<or> hd rest = CHR '';'')"
    by (rule charset_match_Some)
qed (simp_all add: choose_encoding_def header_encoding_def fetch_remote_file_def
      decode_payload_def Let_def)

lemma charset_match_examples:
  "charset_match ''text/html'' = None"
  "charset_match ''text/html; charset=UTF-8'' = Some ''UTF-8''"
  "charset_match ''text/html; charset=x-user-defined'' = Some ''x-user-defined''"
  by code_simp+

lemma js_includes_host: "js_includes ''https://online-fix.me/index.php'' ''online-fix.me''"
  by simp

theorem encoding_choice_witness:
  "choose_encoding ''https://online-fix.me/index.php'' (Some ''text/html'') = ''windows-1251'' \<and>
   choose_encoding ''https://online-fix.me/index.php'' (Some ''text/html; charset=UTF-8'') = ''utf-8'' \<and>
   fetch_remote_file toy_codecs ''https://online-fix.me/index.php''
     (Inr \<lparr>content_type = Some ''text/html; charset=x-user-defined'', body = ''abc''\<rparr>) = Inr ''abc'' \<and>
   fetch_remote_file toy_codecs ''https://online-fix.me/index.php''
     (Inr \<lparr>content_type = Some ''text/html'', body = ''abc''\<rparr>) = Inr ''[cp1251]abc''"
proof -
  let ?u = "''https://online-fix.me/index.php''"
  note t = encoding_choice [where url = ?u and lib = toy_codecs and buf = "''abc''"]
  from t [of "''text/html''"] charset_match_examples(1) js_includes_host
  have 1: "choose_encoding ?u (Some ''text/html'') = ''windows-1251''" by simp
  have l: "js_toLowerCase (js_trim ''UTF-8'') = ''utf-8''"
    "js_toLowerCase (js_trim ''x-user-defined'') = ''x-user-defined''"
    by code_simp+
  from t [of "''text/html; charset=UTF-8''"] charset_match_examples(2) l
  have 2: "choose_encoding ?u (Some ''text/html; charset=UTF-8'') = ''utf-8''" by simp
  from t [of "''text/html; charset=x-user-defined''"] charset_match_examples(3) l
  have 3: "choose_encoding ?u (Some ''text/html; charset=x-user-defined'') = ''x-user-defined''"
    by simp
  have "iconv_decode toy_codecs ''abc'' ''x-user-defined'' =
      Inl (Error ''Encoding not recognized: x-user-defined'')"
    by (simp add: toy_codecs_def)
  with t [of _ "Some ''text/html; charset=x-user-defined''"] 3
  have 4: "fetch_remote_file toy_codecs ?u
     (Inr \<lparr>content_type = Some ''text/html; charset=x-user-defined'', body = ''abc''\<rparr>) = Inr ''abc''"
    by (simp add: toy_codecs_def)
  have "iconv_decode toy_codecs ''abc'' ''windows-1251'' = Inr ''[cp1251]abc''"
    by (simp add: toy_codecs_def)
  with t [of _ "Some ''text/html''"] 1
  have 5: "fetch_remote_file toy_codecs ?u
     (Inr \<lparr>content_type = Some ''text/html'', body = ''abc''\<rparr>) = Inr ''[cp1251]abc''"
    by simp
  from 1 2 4 5 show ?thesis by simp
qed

text \<open>
  The claim as first stated applies the override only when no explicit charset is given.
  A header with the explicit parameter \<open>charset=utf8\<close> is overridden all the same.
\<close>

theorem explicit_utf8_counterexample:
  "charset_match ''text/html; charset=utf8'' = Some ''utf8'' \<and>
   choose_encoding ''https://online-fix.me/index.php'' (Some ''text/html; charset=utf8'') =
     ''windows-1251''"
  by code_simp

section \<open>Properties of the file tree\<close>

text \<open>
  Storing, creating and removing at a path leave every path apart from it as it was;
  after a removal nothing is found at the path removed.
\<close>

lemma map_of_update_other: "c \<noteq> c' \<Longrightarrow> map_of (AList.update c v es) c' = map_of es c'"
  by (simp add: update_conv')

lemma map_of_update_same: "map_of (AList.update c v es) c = Some v"
  by (simp add: update_conv')

lemma apart_Cons: "apart (c # p) (c' # q) \<longleftrightarrow> c \<noteq> c' \<or> apart p q"
  by (auto simp: apart_def)

lemma apart_Nil [simp]: "\<not> apart [] q" "\<not> apart p []"
  by (simp_all add: apart_def)

lemma put_apart:
  "put t p new = Some t' \<Longrightarrow> apart p q \<Longrightarrow> lookup t' q = lookup t q"
proof (induction t p new arbitrary: t' q rule: put.induct)
  case (1 n new)
  then show ?case by simp
next
  case (2 b c cs new)
  then show ?case by simp
next
  case (3 es c new)
  then obtain c' q' where q: "q = c' # q'" by (cases q) auto
  with 3 have "c \<noteq> c'" by (auto simp: apart_def)
  with 3 q show ?case by (auto simp: map_of_update_other)
next
  case (4 es c v va new)
  then obtain c' q' where q: "q = c' # q'" by (cases q) auto
  from 4(2) obtain sub sub' where s: "map_of es c = Some sub" "put sub (v # va) new = Some sub'"
    "t' = Dir (AList.update c sub' es)"
    by (auto split: option.splits)
  show ?case
  proof (cases "c = c'")
    case False
    with s q show ?thesis by (simp add: map_of_update_other)
  next
    case True
    with 4(3) q have "apart (v # va) q'" by (simp add: apart_Cons)
    from 4(1) [OF s(1) s(2) this] s q True show ?thesis by (simp add: map_of_update_same)
  qed
qed

lemma mkdirp_apart:
  "mkdirp t p = Some t' \<Longrightarrow> apart p q \<Longrightarrow> lookup t' q = lookup t q"
proof (induction t p arbitrary: t' q rule: mkdirp.induct)
  case (1 b p)
  then show ?case by simp
next
  case (2 es)
  then show ?case by simp
next
  case (3 es c cs)
  then obtain c' q' where q: "q = c' # q'" by (cases q) auto
  let ?sub = "case map_of es c of None \<Rightarrow> Dir [] | Some sub \<Rightarrow> sub"
  from 3(2) obtain sub' where s: "mkdirp ?sub cs = Some sub'" "t' = Dir (AList.update c sub' es)"
    by (auto split: option.splits)
  show ?case
  proof (cases "c = c'")
    case False
    with s q show ?thesis by (simp add: map_of_update_other)
  next
    case True
    with 3(3) q have a: "apart cs q'" by (simp add: apart_Cons)
    then obtain c2 q2 where q2: "q' = c2 # q2" by (cases q') auto
    from 3(1) [OF s(1) a] have "lookup sub' q' = lookup ?sub q'" .
    with s q True q2 show ?thesis
      by (auto simp: map_of_update_same split: option.splits)
  qed
qed

lemma remove_apart:
  "remove t p = Some t' \<Longrightarrow> apart p q \<Longrightarrow> lookup t' q = lookup t q"
proof (induction t p arbitrary: t' q rule: remove.induct)
  case (1 n)
  then show ?case by simp
next
  case (2 b c cs)
  then show ?case by simp
next
  case (3 es c)
  then obtain c' q' where q: "q = c' # q'" by (cases q) auto
  with 3 have "c \<noteq> c'" by (auto simp: apart_def)
  with 3 q show ?case by (auto simp: delete_conv' split: if_splits)
next
  case (4 es c v va)
  then obtain c' q' where q: "q = c' # q'" by (cases q) auto
  from 4(2) obtain sub sub' where s: "map_of es c = Some sub" "remove sub (v # va) = Some sub'"
    "t' = Dir (AList.update c sub' es)"
    by (auto split: option.splits)
  show ?case
  proof (cases "c = c'")
    case False
    with s q show ?thesis by (simp add: map_of_update_other)
  next
    case True
    with 4(3) q have "apart (v # va) q'" by (simp add: apart_Cons)
    from 4(1) [OF s(1) s(2) this] s q True show ?thesis by (simp add: map_of_update_same)
  qed
qed

lemma remove_lookup: "remove t p = Some t' \<Longrightarrow> lookup t' p = None"
proof (induction t p arbitrary: t' rule: remove.induct)
  case (3 es c)
  then show ?case by (auto simp: delete_conv' split: if_splits)
next
  case (4 es c v va)
  from 4(2) obtain sub sub' where s: "map_of es c = Some sub" "remove sub (v # va) = Some sub'"
    "t' = Dir (AList.update c sub' es)"
    by (auto split: option.splits)
  from 4(1) [OF s(1) s(2)] s show ?case by (simp add: map_of_update_same)
qed simp_all

text \<open>
  What exists keeps existing when something is stored or removed at a path that is not
  a prefix of its own, and when directories are created.
\<close>

lemma put_keeps:
  "put t p new = Some t' \<Longrightarrow> \<not> prefix p q \<Longrightarrow> lookup t q \<noteq> None \<Longrightarrow> lookup t' q \<noteq> None"
proof (induction t p new arbitrary: t' q rule: put.induct)
  case (1 n new)
  then show ?case by simp
next
  case (2 b c cs new)
  then show ?case by simp
next
  case (3 es c new)
  show ?case
  proof (cases q)
    case Nil
    then show ?thesis by simp
  next
    case (Cons c' q')
    with 3 have "c \<noteq> c'" by auto
    with 3 Cons show ?thesis by (auto simp: map_of_update_other)
  qed
next
  case (4 es c v va new)
  from 4(2) obtain sub sub' where s: "map_of es c = Some sub" "put sub (v # va) new = Some sub'"
    "t' = Dir (AList.update c sub' es)"
    by (auto split: option.splits)
  show ?case
  proof (cases q)
    case Nil
    then show ?thesis by simp
  next
    case (Cons c' q')
    show ?thesis
    proof (cases "c = c'")
      case False
      with s Cons 4(4) show ?thesis by (simp add: map_of_update_other)
    next
      case True
      with 4(3) Cons have n: "\<not> prefix (v # va) q'" by simp
      from 4(4) Cons True s have "lookup sub q' \<noteq> None" by simp
      from 4(1) [OF s(1) s(2) n this] s Cons True show ?thesis
        by (simp add: map_of_update_same)
    qed
  qed
qed

lemma remove_keeps:
  "remove t p = Some t' \<Longrightarrow> \<not> prefix p q \<Longrightarrow> lookup t q \<noteq> None \<Longrightarrow> lookup t' q \<noteq> None"
proof (induction t p arbitrary: t' q rule: remove.induct)
  case (1 n)
  then show ?case by simp
next
  case (2 b c cs)
  then show ?case by simp
next
  case (3 es c)
  show ?case
  proof (cases q)
    case Nil
    then show ?thesis by simp
  next
    case (Cons c' q')
    with 3 have "c \<noteq> c'" by auto
    with 3 Cons show ?thesis by (auto simp: delete_conv' split: if_splits)
  qed
next
  case (4 es c v va)
  from 4(2) obtain sub sub' where s: "map_of es c = Some sub" "remove sub (v # va) = Some sub'"
    "t' = Dir (AList.update c sub' es)"
    by (auto split: option.splits)
  show ?case
  proof (cases q)
    case Nil
    then show ?thesis by simp
  next
    case (Cons c' q')
    show ?thesis
    proof (cases "c = c'")
      case False
      with s Cons 4(4) show ?thesis by (simp add: map_of_update_other)
    next
      case True
      with 4(3) Cons have n: "\<not> prefix (v # va) q'" by simp
      from 4(4) Cons True s have "lookup sub q' \<noteq> None" by simp
      from 4(1) [OF s(1) s(2) n this] s Cons True show ?thesis
        by (simp add: map_of_update_same)
    qed
  qed
qed

lemma mkdirp_keeps:
  "mkdirp t p = Some t' \<Longrightarrow> lookup t q \<noteq> None \<Longrightarrow> lookup t' q \<noteq> None"
proof (induction t p arbitrary: t' q rule: mkdirp.induct)
  case (1 b p)
  then show ?case by simp
next
  case (2 es)
  then show ?case by simp
next
  case (3 es c cs)
  let ?sub = "case map_of es c of None \<Rightarrow> Dir [] | Some sub \<Rightarrow> sub"
  from 3(2) obtain sub' where s: "mkdirp ?sub cs = Some sub'" "t' = Dir (AList.update c sub' es)"
    by (auto split: option.splits)
  show ?case
  proof (cases q)
    case Nil
    then show ?thesis by simp
  next
    case (Cons c' q')
    show ?thesis
    proof (cases "c = c'")
      case False
      with s Cons 3(3) show ?thesis by (simp add: map_of_update_other)
    next
      case True
      from 3(3) Cons True have "lookup ?sub q' \<noteq> None" by (auto split: option.splits)
      from 3(1) [OF s(1) this] s Cons True show ?thesis by (simp add: map_of_update_same)
    qed
  qed
qed

lemma mkdirp_exists: "mkdirp t p = Some t' \<Longrightarrow> lookup t' p \<noteq> None"
proof (induction t p arbitrary: t' rule: mkdirp.induct)
  case (3 es c cs)
  let ?sub = "case map_of es c of None \<Rightarrow> Dir [] | Some sub \<Rightarrow> sub"
  from 3(2) obtain sub' where s: "mkdirp ?sub cs = Some sub'" "t' = Dir (AList.update c sub' es)"
    by (auto split: option.splits)
  from 3(1) [OF s(1)] s show ?case by (simp add: map_of_update_same)
qed simp_all

section \<open>Properties of the extraction chain\<close>

text \<open>
  The three phases of the handler are the first-success runner on the list of
  strategies.  The log of a run that starts without a success is a prefix of the
  available strategies; all its entries but the last have failed; the run succeeded
  exactly when the last entry has no error; and a run without success has tried every
  available strategy and holds the error of the last one.
\<close>

lemma try_strategy_log:
  "\<exists>r. attempts (try_strategy pf z d m c) = attempts c @ [(m, r)] \<and>
       (r = None \<longrightarrow> extractionSuccess (try_strategy pf z d m c) \<and>
                      lastError (try_strategy pf z d m c) = lastError c) \<and>
       (r \<noteq> None \<longrightarrow> extractionSuccess (try_strategy pf z d m c) = extractionSuccess c \<and>
                      lastError (try_strategy pf z d m c) = r)"
  by (auto simp: try_strategy_def Let_def split: prod.splits option.splits)

lemma tool_loop_first_success:
  "(\<And>p. available pf (tool p) = tool_exists pf p) \<Longrightarrow>
   tool_loop pf z d tool ps c = first_success pf z d (map tool ps) c"
  by (induction ps arbitrary: c) (simp_all add: Let_def)

lemma first_success_append:
  "\<not> extractionSuccess c \<Longrightarrow>
   first_success pf z d (xs @ ys) c =
     (let c1 = first_success pf z d xs c in
      if extractionSuccess c1 then c1 else first_success pf z d ys c1)"
proof (induction xs arbitrary: c)
  case Nil
  then show ?case by simp
next
  case (Cons m xs)
  show ?case
  proof (cases "available pf m")
    case False
    with Cons show ?thesis by simp
  next
    case True
    show ?thesis
    proof (cases "extractionSuccess (try_strategy pf z d m c)")
      case True
      with \<open>available pf m\<close> show ?thesis by (simp add: Let_def)
    next
      case False
      from Cons.IH [OF False] \<open>available pf m\<close> False show ?thesis by (simp add: Let_def)
    qed
  qed
qed

lemma extraction_chain_refines:
  "extraction_chain pf z d s = first_success pf z d (strategies pf) (chain_start s)"
proof -
  let ?c0 = "chain_start s"
  have u: "first_success pf z d [ExtractZip] ?c0 = try_strategy pf z d ExtractZip ?c0"
    by (simp add: Let_def)
  have n0: "\<not> extractionSuccess ?c0" by (simp add: chain_start_def)
  have 1: "first_success pf z d (strategies pf) ?c0 =
      (let c1 = try_strategy pf z d ExtractZip ?c0 in
       if extractionSuccess c1 then c1
       else first_success pf z d (map SevenZip (sevenZipPaths pf) @ map WinRAR (winrarPaths pf)) c1)"
    by (simp add: strategies_def Let_def)
  show ?thesis
  proof (cases "extractionSuccess (try_strategy pf z d ExtractZip ?c0)")
    case True
    with 1 show ?thesis
      by (simp add: extraction_chain_def Let_def chain_start_def)
  next
    case False
    from first_success_append [OF False, of pf z d "map SevenZip (sevenZipPaths pf)"
        "map WinRAR (winrarPaths pf)"] 1 False
    show ?thesis
      by (simp add: extraction_chain_def Let_def chain_start_def tool_loop_first_success)
  qed
qed

lemma first_success_log:
  "\<not> extractionSuccess c \<Longrightarrow>
   \<exists>new. attempts (first_success pf z d ms c) = attempts c @ new \<and>
     prefix (map fst new) (filter (available pf) ms) \<and>
     list_all failed_attempt (butlast new) \<and>
     (extractionSuccess (first_success pf z d ms c) \<longleftrightarrow> new \<noteq> [] \<and> snd (last new) = None) \<and>
     (\<not> extractionSuccess (first_success pf z d ms c) \<longrightarrow>
        map fst new = filter (available pf) ms \<and> list_all failed_attempt new \<and>
        lastError (first_success pf z d ms c) = (if new = [] then lastError c else snd (last new)))"
proof (induction ms arbitrary: c)
  case Nil
  then show ?case by simp
next
  case (Cons m ms)
  show ?case
  proof (cases "available pf m")
    case False
    with Cons.IH [OF Cons.prems] show ?thesis by simp
  next
    case True
    let ?c1 = "try_strategy pf z d m c"
    from try_strategy_log [of pf z d m c] obtain r where
      a: "attempts ?c1 = attempts c @ [(m, r)]"
      and ok: "r = None \<longrightarrow> extractionSuccess ?c1"
      and ko: "r \<noteq> None \<longrightarrow> extractionSuccess ?c1 = extractionSuccess c \<and> lastError ?c1 = r"
      by blast
    show ?thesis
    proof (cases "extractionSuccess ?c1")
      case True
      with ko Cons.prems have "r = None" by auto
      with True \<open>available pf m\<close> a show ?thesis
        by (intro exI [of _ "[(m, r)]"]) (simp add: Let_def)
    next
      case False
      with ok have r: "r \<noteq> None" by auto
      from Cons.IH [OF False] obtain new where
        n: "attempts (first_success pf z d ms ?c1) = attempts ?c1 @ new"
        "prefix (map fst new) (filter (available pf) ms)"
        "list_all failed_attempt (butlast new)"
        "extractionSuccess (first_success pf z d ms ?c1) \<longleftrightarrow> new \<noteq> [] \<and> snd (last new) = None"
        "\<not> extractionSuccess (first_success pf z d ms ?c1) \<longrightarrow>
           map fst new = filter (available pf) ms \<and> list_all failed_attempt new \<and>
           lastError (first_success pf z d ms ?c1) = (if new = [] then lastError ?c1 else snd (last new))"
        by blast
      have e: "first_success pf z d (m # ms) c = first_success pf z d ms ?c1"
        using True False by (simp add: Let_def)
      have f: "failed_attempt (m, r)" using r by (simp add: failed_attempt_def)
      from ko r False have l: "lastError ?c1 = r" by simp
      show ?thesis
        unfolding e
      proof (intro exI [of _ "(m, r) # new"] conjI impI)
        show "attempts (first_success pf z d ms ?c1) = attempts c @ (m, r) # new"
          using n(1) a by simp
        show "prefix (map fst ((m, r) # new)) (filter (available pf) (m # ms))"
          using n(2) True by simp
        show "list_all failed_attempt (butlast ((m, r) # new))"
          using n(3) f by simp
        show "extractionSuccess (first_success pf z d ms ?c1) \<longleftrightarrow>
            (m, r) # new \<noteq> [] \<and> snd (last ((m, r) # new)) = None"
          using n(4) r by simp
      next
        assume x: "\<not> extractionSuccess (first_success pf z d ms ?c1)"
        with n(5) have y: "map fst new = filter (available pf) ms" "list_all failed_attempt new"
          "lastError (first_success pf z d ms ?c1) = (if new = [] then lastError ?c1 else snd (last new))"
          by simp_all
        show "map fst ((m, r) # new) = filter (available pf) (m # ms)"
          using y(1) True by simp
        show "list_all failed_attempt ((m, r) # new)"
          using y(2) f by simp
        show "lastError (first_success pf z d ms ?c1) =
            (if (m, r) # new = [] then lastError c else snd (last ((m, r) # new)))"
          using y(3) l by simp
      qed
    qed
  qed
qed

lemma js_includes_middle: "js_includes (a @ m @ b) m"
  by (simp add: js_includes_sublist sublist_appendI)

lemma extraction_failed_message:
  "\<exists>msg. extraction_failed (Some err) = Error msg \<and> js_includes msg (message err) \<and>
     js_includes msg ''Please install 7-Zip or WinRAR''"
proof (cases "message err = []")
  case True
  have "js_includes (''All extraction methods failed. Last error: Unknown error. '' @
      ''Please install 7-Zip or WinRAR'' @ ''.'') ''Please install 7-Zip or WinRAR''"
    by (rule js_includes_middle)
  then show ?thesis using True
    by (simp add: extraction_failed_def last_error_message_def)
next
  case False
  have 1: "js_includes (''All extraction methods failed. Last error: '' @ message err @
      ''. Please install 7-Zip or WinRAR.'') (message err)"
    by (rule js_includes_middle)
  have "js_includes ((''All extraction methods failed. Last error: '' @ message err @ ''. '') @
      ''Please install 7-Zip or WinRAR'' @ ''.'') ''Please install 7-Zip or WinRAR''"
    by (rule js_includes_middle)
  then have 2: "js_includes (''All extraction methods failed. Last error: '' @ message err @
      ''. Please install 7-Zip or WinRAR.'') ''Please install 7-Zip or WinRAR''"
    by simp
  from 1 2 False show ?thesis
    by (simp add: extraction_failed_def last_error_message_def)
qed

text \<open>
  C6.  The extraction chain is the first-success runner over the library, then 7-Zip
  at each of its paths, then WinRAR at each of its paths.  The strategies that ran
  are an initial part of the available ones, in that order; every one but the last
  failed, so a failure does not stop the chain and nothing runs after a success; the
  chain succeeded exactly when the last strategy that ran completed without error.
  When no strategy succeeded, every available strategy ran and failed (the library
  alone, when no tool exists at any path), and the operation throws an error whose
  message contains the message of the last strategy error and the hint to install
  7-Zip or WinRAR.
\<close>

theorem extraction_chain_order:
  "extraction_chain pf z d s = first_success pf z d (strategies pf) (chain_start s) \<and>
   prefix (map fst (attempts (extraction_chain pf z d s)))
     (filter (available pf) (strategies pf)) \<and>
   attempts (extraction_chain pf z d s) \<noteq> [] \<and>
   list_all failed_attempt (butlast (attempts (extraction_chain pf z d s))) \<and>
   (extractionSuccess (extraction_chain pf z d s) \<longleftrightarrow>
      snd (last (attempts (extraction_chain pf z d s))) = None) \<and>
   (\<not> extractionSuccess (extraction_chain pf z d s) \<longrightarrow>
      map fst (attempts (extraction_chain pf z d s)) = filter (available pf) (strategies pf) \<and>
      list_all failed_attempt (attempts (extraction_chain pf z d s)) \<and>
      (\<exists>err msg.
         snd (last (attempts (extraction_chain pf z d s))) = Some err \<and>
         lastError (extraction_chain pf z d s) = Some err \<and>
         extract_archive pf z d s = (Thrown (Error msg), sys_of (extraction_chain pf z d s)) \<and>
         js_includes msg (message err) \<and>
         js_includes msg ''Please install 7-Zip or WinRAR''))"
proof -
  let ?c = "extraction_chain pf z d s"
  let ?all = "filter (available pf) (strategies pf)"
  have e: "?c = first_success pf z d (strategies pf) (chain_start s)"
    by (rule extraction_chain_refines)
  have "\<not> extractionSuccess (chain_start s)" by (simp add: chain_start_def)
  from first_success_log [OF this, of pf z d "strategies pf"] e
  obtain new where
    n: "attempts ?c = attempts (chain_start s) @ new"
      "prefix (map fst new) ?all"
      "list_all failed_attempt (butlast new)"
      "extractionSuccess ?c \<longleftrightarrow> new \<noteq> [] \<and> snd (last new) = None"
      "\<not> extractionSuccess ?c \<longrightarrow>
         map fst new = ?all \<and> list_all failed_attempt new \<and>
         lastError ?c = (if new = [] then lastError (chain_start s) else snd (last new))"
    by (elim exE conjE) simp
  from n(1) have a: "attempts ?c = new" by (simp add: chain_start_def)
  have h: "?all \<noteq> []" by (simp add: strategies_def)
  have ne: "new \<noteq> []"
  proof (cases "extractionSuccess ?c")
    case True
    with n(4) show ?thesis by simp
  next
    case False
    with n(5) h show ?thesis by auto
  qed
  have f: "\<not> extractionSuccess ?c \<longrightarrow>
      (\<exists>err msg. snd (last new) = Some err \<and> lastError ?c = Some err \<and>
         extract_archive pf z d s = (Thrown (Error msg), sys_of ?c) \<and>
         js_includes msg (message err) \<and> js_includes msg ''Please install 7-Zip or WinRAR'')"
  proof
    assume x: "\<not> extractionSuccess ?c"
    with n(5) ne have l: "list_all failed_attempt new" "lastError ?c = snd (last new)" by simp_all
    from l(1) ne have "failed_attempt (last new)" by (simp add: list_all_iff)
    then obtain err where err: "snd (last new) = Some err" by (auto simp: failed_attempt_def)
    from extraction_failed_message [of err] obtain msg where
      m: "extraction_failed (Some err) = Error msg" "js_includes msg (message err)"
        "js_includes msg ''Please install 7-Zip or WinRAR''" by blast
    from x l(2) err m(1) have "extract_archive pf z d s = (Thrown (Error msg), sys_of ?c)"
      by (simp add: extract_archive_def Let_def)
    with err l(2) m(2,3) show "\<exists>err msg. snd (last new) = Some err \<and> lastError ?c = Some err \<and>
         extract_archive pf z d s = (Thrown (Error msg), sys_of ?c) \<and>
         js_includes msg (message err) \<and> js_includes msg ''Please install 7-Zip or WinRAR''"
      by auto
  qed
  have g: "extractionSuccess ?c \<longleftrightarrow> snd (last new) = None"
    using n(4) ne by simp
  have k: "\<not> extractionSuccess ?c \<longrightarrow>
      map fst new = ?all \<and> list_all failed_attempt new \<and>
      (\<exists>err msg. snd (last new) = Some err \<and> lastError ?c = Some err \<and>
         extract_archive pf z d s = (Thrown (Error msg), sys_of ?c) \<and>
         js_includes msg (message err) \<and> js_includes msg ''Please install 7-Zip or WinRAR'')"
    using n(5) f by simp
  show ?thesis
    unfolding a
    by (intro conjI) (rule e, rule n(2), rule ne, rule n(3), rule g, rule k)
qed

lemmas chain_eval = extraction_chain_def try_strategy_def sevenZipPaths_def winrarPaths_def
  env_path_def path_join_def is_sep_def Let_def

theorem extraction_chain_order_witness:
  "\<not> extractionSuccess (extraction_chain demo_pf [''tmp'', ''a.zip''] [''tmp'', ''e'']
       \<lparr>tree = Dir [(''tmp'', Dir [])], gets = []\<rparr>) \<and>
   map fst (attempts (extraction_chain demo_pf [''tmp'', ''a.zip''] [''tmp'', ''e'']
       \<lparr>tree = Dir [(''tmp'', Dir [])], gets = []\<rparr>)) = [ExtractZip] \<and>
   (\<exists>err msg.
      lastError (extraction_chain demo_pf [''tmp'', ''a.zip''] [''tmp'', ''e'']
        \<lparr>tree = Dir [(''tmp'', Dir [])], gets = []\<rparr>) = Some err \<and>
      fst (extract_archive demo_pf [''tmp'', ''a.zip''] [''tmp'', ''e'']
        \<lparr>tree = Dir [(''tmp'', Dir [])], gets = []\<rparr>) = Thrown (Error msg) \<and>
      js_includes msg (message err) \<and>
      js_includes msg ''Please install 7-Zip or WinRAR'') \<and>
   extractionSuccess (extraction_chain tools_pf [''tmp'', ''a.zip''] [''tmp'', ''e'']
       \<lparr>tree = Dir [(''tmp'', Dir [])], gets = []\<rparr>) \<and>
   snd (last (attempts (extraction_chain tools_pf [''tmp'', ''a.zip''] [''tmp'', ''e'']
       \<lparr>tree = Dir [(''tmp'', Dir [])], gets = []\<rparr>))) = None"
proof -
  let ?z = "[''tmp'', ''a.zip'']"
  let ?d = "[''tmp'', ''e'']"
  let ?s = "\<lparr>tree = Dir [(''tmp'', Dir [])], gets = []\<rparr>"
  have f: "\<not> extractionSuccess (extraction_chain demo_pf ?z ?d ?s)"
    by (simp add: chain_eval demo_pf_def demo_unzip_def)
  have v: "filter (available demo_pf) (strategies demo_pf) = [ExtractZip]"
    by (simp add: strategies_def demo_pf_def)
  have t: "extractionSuccess (extraction_chain tools_pf ?z ?d ?s)"
    by (simp add: chain_eval tools_pf_def)
  from extraction_chain_order [of demo_pf ?z ?d ?s] f v
  have 1: "map fst (attempts (extraction_chain demo_pf ?z ?d ?s)) = [ExtractZip]"
    and 2: "\<exists>err msg.
      lastError (extraction_chain demo_pf ?z ?d ?s) = Some err \<and>
      fst (extract_archive demo_pf ?z ?d ?s) = Thrown (Error msg) \<and>
      js_includes msg (message err) \<and>
      js_includes msg ''Please install 7-Zip or WinRAR''"
    by auto
  from extraction_chain_order [of tools_pf ?z ?d ?s] t
  have 3: "snd (last (attempts (extraction_chain tools_pf ?z ?d ?s))) = None"
    by blast
  from f 1 2 t 3 show ?thesis by blast
qed

section \<open>Properties of the install source\<close>

lemma lookup_append:
  "lookup t (p @ q) = (case lookup t p of None \<Rightarrow> None | Some n \<Rightarrow> lookup n q)"
  by (induction t p rule: lookup.induct) (auto split: option.splits)

lemma isDirectory_child:
  "lookup t dir = Some (Dir es) \<Longrightarrow> isDirectory t (dir @ [name]) = is_child_dir es name"
  by (simp add: isDirectory_def is_child_dir_def lookup_append split: option.splits)

lemma isDirectory_exists: "isDirectory t p \<Longrightarrow> existsSync t p"
  by (auto simp: existsSync_def isDirectory_def split: option.splits)

lemma plain_split: "list_all (\<lambda>c. \<not> is_sep c) s \<Longrightarrow> split_path s = [s]"
  by (induction s) auto

lemma path_join_plain: "plain_name s \<Longrightarrow> path_join p s = p @ [s]"
  by (simp add: plain_name_def path_join_def plain_split)


text \<open>
  C7.  For every tree in which the extraction root is a directory, and every
  identifier that is a plain name (one path segment: not empty, not \<open>.\<close> or \<open>..\<close>,
  without a separator), the install source is the child directory of the root named
  exactly as the identifier, if there is one; otherwise the first child directory
  whose name contains the identifier; otherwise the root.
\<close>

theorem resolve_source_plain:
  assumes "plain_name appID" and "lookup t dir = Some (Dir es)"
  shows "resolve_source t dir appID = Inr (install_source es dir appID)"
proof -
  from assms(1) have j: "path_join dir appID = dir @ [appID]" by (rule path_join_plain)
  have d: "\<And>name. isDirectory t (dir @ [name]) = is_child_dir es name"
    using assms(2) by (rule isDirectory_child)
  have x: "\<And>name. existsSync t (dir @ [name]) \<and> isDirectory t (dir @ [name]) \<longleftrightarrow>
      is_child_dir es name"
    using d isDirectory_exists [of t] by blast
  have r: "readdirSync t dir = Inr (map fst es)"
    using assms(2) by (simp add: readdirSync_def)
  have ex: "\<And>name. is_child_dir es name \<Longrightarrow> existsSync t (dir @ [name])"
    using x by blast
  show ?thesis
    by (simp add: resolve_source_def install_source_def find_folder_def Let_def j r d ex
        split: option.splits)
qed

lemma plain_440: "plain_name ''440''"
  by (simp add: plain_name_def is_sep_def)

theorem resolve_source_plain_witness:
  "plain_name ''440'' \<and>
   resolve_source extracted_tree [''x''] ''440'' = Inr [''x'', ''440_fix'']"
proof -
  let ?es = "[(''readme.txt'', File ''r''),
              (''440_fix'', Dir [(''fix.dll'', File ''new'')]),
              (''other'', Dir [])]"
  have l: "lookup extracted_tree [''x''] = Some (Dir ?es)"
    by (simp add: extracted_tree_def)
  have i: "install_source ?es [''x''] ''440'' = [''x'', ''440_fix'']"
    by (simp add: install_source_def is_child_dir_def)
  from resolve_source_plain [OF plain_440 l] i plain_440 show ?thesis by simp
qed

text \<open>
  The claim as first stated is for every identifier.  The empty identifier is joined
  to the extraction root as the root itself, which is a directory, so the handler takes
  the root; by the words of the claim no child is named by the empty string, every
  name contains it, and the source is the first child directory.
\<close>

theorem empty_identifier_counterexample:
  "resolve_source extracted_tree [''x''] [] = Inr [''x''] \<and>
   install_source [(''readme.txt'', File ''r''),
                   (''440_fix'', Dir [(''fix.dll'', File ''new'')]),
                   (''other'', Dir [])] [''x''] [] = [''x'', ''440_fix''] \<and>
   lookup extracted_tree [''x''] =
     Some (Dir [(''readme.txt'', File ''r''),
                (''440_fix'', Dir [(''fix.dll'', File ''new'')]),
                (''other'', Dir [])])"
  by (simp add: resolve_source_def path_join_def existsSync_def isDirectory_def
      extracted_tree_def install_source_def is_child_dir_def)

section \<open>Properties of the download and of the handler \<open>download-extract-fix\<close>\<close>

text \<open>
  Each step of the handler before the copy writes at the temporary directory, at the
  path of the download or at the extraction folder, and leaves every path apart from
  these as it was.
\<close>

lemma apart_append: "apart p q \<Longrightarrow> apart (p @ r) q"
  by (auto simp: apart_def prefix_append dest: append_prefixD)

lemma fs_step_frame:
  assumes "fs_step f s = (r, s1)"
    and "\<And>t t'. f t = Inr t' \<Longrightarrow> lookup t' q = lookup t q"
  shows "lookup (tree s1) q = lookup (tree s) q"
  using assms by (auto simp: fs_step_def split: sum.splits)

lemma ensure_dir_frame:
  "ensure_dir p s = (r, s1) \<Longrightarrow> apart p q \<Longrightarrow> lookup (tree s1) q = lookup (tree s) q"
  by (auto simp: ensure_dir_def mkdirSync_def split: if_splits option.splits
      elim!: fs_step_frame dest: mkdirp_apart)

lemma unlink_quietly_frame:
  "apart p q \<Longrightarrow> lookup (unlink_quietly t p) q = lookup t q"
  by (auto simp: unlink_quietly_def unlinkSync_def split: sum.splits option.splits node.splits
      dest: remove_apart)

lemma pipe_to_file_frame:
  "apart p q \<Longrightarrow> lookup (pipe_to_file t p b) q = lookup t q"
  by (auto simp: pipe_to_file_def split: option.splits dest: put_apart)

lemma createWriteStream_frame:
  "createWriteStream t p = Some t0 \<Longrightarrow> apart p q \<Longrightarrow> lookup t0 q = lookup t q"
  by (auto simp: createWriteStream_def split: if_splits dest: put_apart)


lemma download_tree:
  assumes "apart p q"
  shows "lookup (tree (snd (download h url p s))) q = lookup (tree s) q"
proof (cases "createWriteStream (tree s) p")
  case None
  then show ?thesis by (simp add: download_def)
next
  case (Some t0)
  from Some assms have t0: "lookup t0 q = lookup (tree s) q" by (rule createWriteStream_frame)
  from Some show ?thesis
    by (simp add: download_def Let_def t0 unlink_quietly_frame [OF assms]
        pipe_to_file_frame [OF assms] split: get_reply.split option.split)
qed

lemma download_frame:
  "download h url p s = (r, s1) \<Longrightarrow> apart p q \<Longrightarrow> lookup (tree s1) q = lookup (tree s) q"
  using download_tree [of p q h url s] by simp

lemma try_strategy_frame:
  "apart d q \<Longrightarrow>
   lookup (tree (sys_of (try_strategy pf z d m c))) q = lookup (tree (sys_of c)) q"
  by (auto simp: try_strategy_def Let_def split: prod.splits option.splits dest: put_apart)

lemma first_success_frame:
  "apart d q \<Longrightarrow>
   lookup (tree (sys_of (first_success pf z d ms c))) q = lookup (tree (sys_of c)) q"
  by (induction ms arbitrary: c) (simp_all add: Let_def try_strategy_frame)

lemma extract_archive_frame:
  "extract_archive pf z d s = (r, s1) \<Longrightarrow> apart d q \<Longrightarrow>
   lookup (tree s1) q = lookup (tree s) q"
  using first_success_frame [of d q pf z "strategies pf" "chain_start s"]
  by (auto simp: extract_archive_def Let_def extraction_chain_refines chain_start_def
      split: if_splits)

lemma fetch_and_extract_frame:
  assumes r: "fetch_and_extract pf url fileName s = (r, s1)"
    and a: "apart (tempDir_of pf) q"
    and z: "apart (path_join (tempDir_of pf) fileName) q"
  shows "lookup (tree s1) q = lookup (tree s) q"
proof -
  let ?tmp = "tempDir_of pf"
  let ?zip = "path_join ?tmp fileName"
  let ?ext = "?tmp @ [''extracted'']"
  from a have e: "apart ?ext q" by (rule apart_append)
  obtain r1 sa where 1: "ensure_dir ?tmp s = (r1, sa)" by (cases "ensure_dir ?tmp s")
  obtain r2 sb where 2: "download (http pf) url ?zip sa = (r2, sb)"
    by (cases "download (http pf) url ?zip sa")
  obtain r3 sc where 3: "ensure_dir ?ext sb = (r3, sc)" by (cases "ensure_dir ?ext sb")
  obtain r4 sd where 4: "extract_archive pf ?zip ?ext sc = (r4, sd)"
    by (cases "extract_archive pf ?zip ?ext sc")
  have fa: "lookup (tree sa) q = lookup (tree s) q" using 1 a by (rule ensure_dir_frame)
  have fb: "lookup (tree sb) q = lookup (tree sa) q" using 2 z by (rule download_frame)
  have fc: "lookup (tree sc) q = lookup (tree sb) q" using 3 e by (rule ensure_dir_frame)
  have fd: "lookup (tree sd) q = lookup (tree sc) q" using 4 e by (rule extract_archive_frame)
  from r 1 2 3 4 have "s1 = sa \<or> s1 = sb \<or> s1 = sc \<or> s1 = sd"
    by (cases r1; cases r2; cases r3) (auto simp: fetch_and_extract_def Let_def then_do_def)
  with fa fb fc fd show ?thesis by auto
qed

lemma apart_plain_file:
  "apart p q \<Longrightarrow> plain_name f \<Longrightarrow> apart (path_join p f) q"
  by (simp add: path_join_plain apart_append)

text \<open>
  The download asks for the URL, and once more for the \<open>Location\<close> of a 301 or 302;
  a first response with any other status than 200 rejects the promise with the status
  code in the message.
\<close>

lemma download_first_hop:
  assumes "createWriteStream (tree s) p = Some t0"
    and "http_get url = Reply status loc bytes"
    and "status \<noteq> 200" and "status \<noteq> 301" and "status \<noteq> 302"
  shows "download http_get url p s =
    (Thrown (Error (''Failed to download: '' @ dec status)), s\<lparr>tree := t0, gets := gets s @ [url]\<rparr>)"
  using assms by (simp add: download_def)

lemma download_requests:
  "gets (snd (download http_get url p s)) = gets s @ [url] \<or>
   (\<exists>status bytes redirectUrl. (status = 301 \<or> status = 302) \<and>
      http_get url = Reply status (Some redirectUrl) bytes \<and>
      gets (snd (download http_get url p s)) = gets s @ [url, redirectUrl])"
  by (simp add: download_def Let_def split: option.split get_reply.split)

lemma download_redirect_any_status:
  assumes "createWriteStream (tree s) p = Some t0"
    and "status = 301 \<or> status = 302"
    and "http_get url = Reply status (Some redirectUrl) bytes"
    and "http_get redirectUrl = Reply status2 loc2 bytes2"
  shows "download http_get url p s =
    (Done (), s\<lparr>tree := pipe_to_file t0 p bytes2, gets := gets s @ [url, redirectUrl]\<rparr>)"
  using assms by (auto simp: download_def)

text \<open>
  C5.  After a redirect the status of the second response is never read: with a 302
  to a URL that answers 404, the download completes, and the file holds the body of
  the 404 response.
\<close>

theorem redirect_status_unchecked:
  "download demo_http ''https://host/moved.zip'' [''tmp'', ''fix.zip''] demo_sys =
     (Done (),
      \<lparr>tree = Dir [(''tmp'', Dir [(''fix.zip'', File ''Not Found'')]),
                   (''games'', Dir [(''tf2'', Dir [(''fix.dll'', File ''old'')])])],
       gets = [''https://host/moved.zip'', ''https://cdn/gone.zip'']\<rparr>)"
  by (simp add: download_def createWriteStream_def isDirectory_def pipe_to_file_def
      demo_http_def demo_sys_def demo_tree_def)

text \<open>
  C10.  When the destination folder and the temporary workspace are apart (neither is
  the other or lies inside it), and the file name is a plain name (or the path of the
  download is apart from the destination folder as well), a run that does not get past
  the extraction (the download is rejected, every strategy fails, or an earlier step
  throws) ends in the state it has reached there, does not report success, and leaves
  the destination folder as it was: what is found at its path, with everything below
  it, is the same as before the run.
\<close>

theorem target_untouched_before_copy:
  assumes "apart (tempDir_of pf) targetFolder"
    and "plain_name fileName \<or> apart (path_join (tempDir_of pf) fileName) targetFolder"
    and "fetch_and_extract pf url fileName s = (r, s1)"
    and "r \<noteq> Done ()"
  shows "snd (download_extract_fix pf url targetFolder appID fileName s) = s1 \<and>
         (\<forall>err. r = Thrown err \<longrightarrow>
            fst (download_extract_fix pf url targetFolder appID fileName s) =
              FixFailed (message err)) \<and>
         (r = Uncaught \<longrightarrow>
            fst (download_extract_fix pf url targetFolder appID fileName s) = NoResult) \<and>
         lookup (tree s1) targetFolder = lookup (tree s) targetFolder"
proof -
  from assms(1,2) have z: "apart (path_join (tempDir_of pf) fileName) targetFolder"
    by (auto intro: apart_plain_file)
  from assms(3) assms(1) z have "lookup (tree s1) targetFolder = lookup (tree s) targetFolder"
    by (rule fetch_and_extract_frame)
  moreover from assms(3,4) have
    "snd (download_extract_fix pf url targetFolder appID fileName s) = s1 \<and>
     (\<forall>err. r = Thrown err \<longrightarrow>
        fst (download_extract_fix pf url targetFolder appID fileName s) =
          FixFailed (message err)) \<and>
     (r = Uncaught \<longrightarrow>
        fst (download_extract_fix pf url targetFolder appID fileName s) = NoResult)"
    by (cases r) (simp_all add: download_extract_fix_def fix_try_def then_do_def)
  ultimately show ?thesis by simp
qed

lemma missing_zip_run:
  "fetch_and_extract demo_pf ''https://host/missing.zip'' ''fix.zip'' demo_sys =
     (Thrown (Error ''Failed to download: 404''),
      \<lparr>tree = Dir [(''tmp'', Dir [(''online-fix-42'', Dir [(''fix.zip'', File [])])]),
                   (''games'', Dir [(''tf2'', Dir [(''fix.dll'', File ''old'')])])],
       gets = [''https://host/missing.zip'']\<rparr>)"
  by code_simp

theorem target_untouched_before_copy_witness:
  "download_extract_fix demo_pf ''https://host/missing.zip'' [''games'', ''tf2'']
      ''440'' ''fix.zip'' demo_sys =
     (FixFailed ''Failed to download: 404'',
      \<lparr>tree = Dir [(''tmp'', Dir [(''online-fix-42'', Dir [(''fix.zip'', File [])])]),
                   (''games'', Dir [(''tf2'', Dir [(''fix.dll'', File ''old'')])])],
       gets = [''https://host/missing.zip'']\<rparr>) \<and>
   lookup (tree (snd (download_extract_fix demo_pf ''https://host/missing.zip''
      [''games'', ''tf2''] ''440'' ''fix.zip'' demo_sys))) [''games'', ''tf2''] =
     lookup (tree demo_sys) [''games'', ''tf2'']"
proof -
  let ?t1 = "Dir [(''tmp'', Dir [(''online-fix-42'', Dir [(''fix.zip'', File [])])]),
                  (''games'', Dir [(''tf2'', Dir [(''fix.dll'', File ''old'')])])]"
  let ?s1 = "\<lparr>tree = ?t1, gets = [''https://host/missing.zip'']\<rparr>"
  let ?run = "download_extract_fix demo_pf ''https://host/missing.zip'' [''games'', ''tf2'']
      ''440'' ''fix.zip'' demo_sys"
  have a: "apart (tempDir_of demo_pf) [''games'', ''tf2'']"
    by (simp add: apart_def tempDir_of_def demo_pf_def)
  have p: "plain_name ''fix.zip'' \<or>
      apart (path_join (tempDir_of demo_pf) ''fix.zip'') [''games'', ''tf2'']"
    by (simp add: plain_name_def is_sep_def)
  have n: "(Thrown (Error ''Failed to download: 404'') :: unit outcome) \<noteq> Done ()"
    by simp
  note r = target_untouched_before_copy [OF a p missing_zip_run n, of "''440''"]
  from r have s: "snd ?run = ?s1" by (rule conjunct1)
  from r have "fst ?run = FixFailed (message (Error ''Failed to download: 404''))"
    by blast
  then have f: "fst ?run = FixFailed ''Failed to download: 404''" by simp
  from r have l: "lookup (tree ?s1) [''games'', ''tf2''] = lookup (tree demo_sys) [''games'', ''tf2'']"
    by blast
  from s f have run: "?run = (FixFailed ''Failed to download: 404'', ?s1)"
    by (simp add: prod_eq_iff)
  from l have l2: "lookup (tree (snd ?run)) [''games'', ''tf2''] =
      lookup (tree demo_sys) [''games'', ''tf2'']"
    unfolding s .
  from run l2 show ?thesis by (rule conjI)
qed

text \<open>
  The claim as first stated is for every run.  With the directory of temporary files
  itself as the destination folder, a run whose download is rejected has created the
  workspace inside the destination folder.
\<close>

theorem target_is_tmpdir_counterexample:
  "fst (download_extract_fix demo_pf ''https://host/missing.zip'' [''tmp'']
          ''440'' ''fix.zip'' demo_sys) = FixFailed ''Failed to download: 404'' \<and>
   lookup (tree (snd (download_extract_fix demo_pf ''https://host/missing.zip'' [''tmp'']
          ''440'' ''fix.zip'' demo_sys))) [''tmp''] =
     Some (Dir [(''online-fix-42'', Dir [(''fix.zip'', File [])])]) \<and>
   lookup (tree demo_sys) [''tmp''] = Some (Dir [])"
  by code_simp

text \<open>
  The clean-up is the last statement of the \<open>try\<close> block, so a run that reports
  success has removed the temporary workspace.
\<close>

lemma deleteFolderRecursive_gone:
  "deleteFolderRecursive n t p = Inr t' \<Longrightarrow> \<not> existsSync t' p"
  by (cases n)
    (auto simp: rmdirSync_def existsSync_def remove_lookup
      split: if_splits sum.splits option.splits node.splits)

lemma cleanup_on_success:
  assumes "download_extract_fix pf url targetFolder appID fileName s = (FixDone m, s1)"
  shows "\<not> existsSync (tree s1) (tempDir_of pf)"
proof -
  from assms obtain u where t: "fix_try pf url targetFolder appID fileName s = (Done u, s1)"
    by (auto simp: download_extract_fix_def split: prod.splits outcome.splits)
  then obtain s0 where
    "fs_step (\<lambda>t. deleteFolderRecursive (stack_limit pf) t (tempDir_of pf)) s0 = (Done u, s1)"
    by (auto simp: fix_try_def then_do_def split: prod.splits outcome.splits)
  then show ?thesis
    by (auto simp: fs_step_def split: sum.splits dest: deleteFolderRecursive_gone)
qed

text \<open>
  A run that has created its workspace and does not get past the extraction still has
  the workspace on disk; when it throws there, the handler returns the failure in that
  state.
\<close>

lemma ensure_dir_exists:
  "ensure_dir p s = (Done (), s1) \<Longrightarrow> existsSync (tree s1) p"
  by (auto simp: ensure_dir_def fs_step_def mkdirSync_def existsSync_def
      split: if_splits option.splits dest: mkdirp_exists)

lemma ensure_dir_keeps:
  "ensure_dir p s = (r, s1) \<Longrightarrow> existsSync (tree s) q \<Longrightarrow> existsSync (tree s1) q"
  by (auto simp: ensure_dir_def fs_step_def mkdirSync_def existsSync_def
      split: if_splits option.splits dest: mkdirp_keeps)

lemma unlink_quietly_keeps:
  "\<not> prefix p q \<Longrightarrow> existsSync t q \<Longrightarrow> existsSync (unlink_quietly t p) q"
  using remove_keeps [of t p _ q]
  by (auto simp: unlink_quietly_def unlinkSync_def existsSync_def
      split: sum.splits option.splits node.splits)

lemma pipe_to_file_keeps:
  "\<not> prefix p q \<Longrightarrow> existsSync t q \<Longrightarrow> existsSync (pipe_to_file t p b) q"
  using put_keeps [of t p _ _ q]
  by (auto simp: pipe_to_file_def existsSync_def split: option.splits)

lemma createWriteStream_keeps:
  "createWriteStream t p = Some t0 \<Longrightarrow> \<not> prefix p q \<Longrightarrow> existsSync t q \<Longrightarrow> existsSync t0 q"
  using put_keeps [of t p _ t0 q]
  by (auto simp: createWriteStream_def existsSync_def split: if_splits)

lemma download_keeps:
  assumes "\<not> prefix p q" and "existsSync (tree s) q"
  shows "existsSync (tree (snd (download h url p s))) q"
proof (cases "createWriteStream (tree s) p")
  case None
  with assms show ?thesis by (simp add: download_def)
next
  case (Some t0)
  from Some assms have t0: "existsSync t0 q" by (rule createWriteStream_keeps)
  from Some show ?thesis
    by (simp add: download_def Let_def t0 unlink_quietly_keeps [OF assms(1) t0]
        pipe_to_file_keeps [OF assms(1) t0] split: get_reply.split option.split)
qed

lemma try_strategy_keeps:
  "\<not> prefix d q \<Longrightarrow> existsSync (tree (sys_of c)) q \<Longrightarrow>
   existsSync (tree (sys_of (try_strategy pf z d m c))) q"
  using put_keeps [of "tree (sys_of c)" d _ _ q]
  by (auto simp: try_strategy_def Let_def existsSync_def split: prod.splits option.splits)

lemma first_success_keeps:
  "\<not> prefix d q \<Longrightarrow> existsSync (tree (sys_of c)) q \<Longrightarrow>
   existsSync (tree (sys_of (first_success pf z d ms c))) q"
  by (induction ms arbitrary: c) (simp_all add: Let_def try_strategy_keeps)

lemma extract_archive_keeps:
  "\<not> prefix d q \<Longrightarrow> existsSync (tree s) q \<Longrightarrow>
   existsSync (tree (snd (extract_archive pf z d s))) q"
  using first_success_keeps [of d q "chain_start s" pf z "strategies pf"]
  by (simp add: extract_archive_def Let_def extraction_chain_refines chain_start_def)

lemma workspace_remains:
  assumes p: "plain_name fileName"
    and w: "ensure_dir (tempDir_of pf) s = (Done (), sa)"
    and r: "fetch_and_extract pf url fileName s = (r, s1)"
  shows "existsSync (tree s1) (tempDir_of pf)"
proof -
  let ?tmp = "tempDir_of pf"
  let ?zip = "path_join ?tmp fileName"
  let ?ext = "?tmp @ [''extracted'']"
  from p have z: "\<not> prefix ?zip ?tmp" by (simp add: path_join_plain)
  have e: "\<not> prefix ?ext ?tmp" by simp
  obtain r2 sb where 2: "download (http pf) url ?zip sa = (r2, sb)"
    by (cases "download (http pf) url ?zip sa")
  obtain r3 sc where 3: "ensure_dir ?ext sb = (r3, sc)" by (cases "ensure_dir ?ext sb")
  obtain r4 sd where 4: "extract_archive pf ?zip ?ext sc = (r4, sd)"
    by (cases "extract_archive pf ?zip ?ext sc")
  from w have a: "existsSync (tree sa) ?tmp" by (rule ensure_dir_exists)
  from download_keeps [OF z a, of "http pf" url] 2 have b: "existsSync (tree sb) ?tmp" by simp
  from 3 b have c: "existsSync (tree sc) ?tmp" by (rule ensure_dir_keeps)
  from extract_archive_keeps [OF e c, of pf ?zip] 4 have d: "existsSync (tree sd) ?tmp" by simp
  from r w 2 3 4 have "s1 = sb \<or> s1 = sc \<or> s1 = sd"
    by (cases r2; cases r3) (auto simp: fetch_and_extract_def Let_def then_do_def)
  with b c d show ?thesis by auto
qed

lemma failure_keeps_workspace:
  assumes "plain_name fileName"
    and "ensure_dir (tempDir_of pf) s = (Done (), sa)"
    and "fetch_and_extract pf url fileName s = (Thrown err, s1)"
  shows "download_extract_fix pf url targetFolder appID fileName s = (FixFailed (message err), s1) \<and>
         existsSync (tree s1) (tempDir_of pf)"
  using workspace_remains [OF assms] assms(3)
  by (simp add: download_extract_fix_def fix_try_def then_do_def)

text \<open>
  C1.  The \<open>catch\<close> block returns the failure and removes nothing.  After a run whose
  download is rejected, and after a run in which every extraction strategy fails, the
  temporary workspace is still on disk, with what the run has put into it.
\<close>

theorem workspace_left_behind:
  "download_extract_fix demo_pf ''https://host/missing.zip'' [''games'', ''tf2'']
      ''440'' ''fix.zip'' demo_sys =
     (FixFailed ''Failed to download: 404'',
      \<lparr>tree = Dir [(''tmp'', Dir [(''online-fix-42'', Dir [(''fix.zip'', File [])])]),
                   (''games'', Dir [(''tf2'', Dir [(''fix.dll'', File ''old'')])])],
       gets = [''https://host/missing.zip'']\<rparr>) \<and>
   download_extract_fix demo_pf ''https://host/broken.zip'' [''games'', ''tf2'']
      ''440'' ''fix.zip'' demo_sys =
     (FixFailed (''All extraction methods failed. Last error: '' @
                 ''end of central directory record signature not found'' @
                 ''. Please install 7-Zip or WinRAR.''),
      \<lparr>tree = Dir [(''tmp'', Dir [(''online-fix-42'',
                      Dir [(''fix.zip'', File ''garbage''), (''extracted'', Dir [])])]),
                   (''games'', Dir [(''tf2'', Dir [(''fix.dll'', File ''old'')])])],
       gets = [''https://host/broken.zip'']\<rparr>) \<and>
   tempDir_of demo_pf = [''tmp'', ''online-fix-42'']"
  by code_simp

end
